theory Spec2Isabelle
  imports Complex_Main "HOL-Library.AList"
begin

section \<open>JavaScript numbers\<close>

text \<open>
  Every number of the simulator is a JavaScript \<open>number\<close>. The model keeps the three
  special values of that type, because the program can produce them (\<open>parseFloat\<close> of an
  empty form field is \<open>NaN\<close>) and because comparisons with \<open>NaN\<close> are all false, which
  changes which branch of an \<open>if\<close> is taken. Finite values are exact reals: rounding,
  overflow to infinity and the sign of zero are not modelled.
\<close>

datatype jsnum = NaN | PInf | NInf | Fin real

fun js_lt :: "jsnum \<Rightarrow> jsnum \<Rightarrow> bool" where
  "js_lt NaN _ = False"
| "js_lt _ NaN = False"
| "js_lt PInf _ = False"
| "js_lt _ NInf = False"
| "js_lt NInf _ = True"
| "js_lt _ PInf = True"
| "js_lt (Fin a) (Fin b) = (a < b)"

fun js_le :: "jsnum \<Rightarrow> jsnum \<Rightarrow> bool" where
  "js_le NaN _ = False"
| "js_le _ NaN = False"
| "js_le NInf _ = True"
| "js_le _ PInf = True"
| "js_le PInf _ = False"
| "js_le _ NInf = False"
| "js_le (Fin a) (Fin b) = (a \<le> b)"

definition js_gt :: "jsnum \<Rightarrow> jsnum \<Rightarrow> bool" where
  "js_gt a b = js_lt b a"

definition js_ge :: "jsnum \<Rightarrow> jsnum \<Rightarrow> bool" where
  "js_ge a b = js_le b a"

fun js_neg :: "jsnum \<Rightarrow> jsnum" where
  "js_neg NaN = NaN"
| "js_neg PInf = NInf"
| "js_neg NInf = PInf"
| "js_neg (Fin a) = Fin (- a)"

fun js_add :: "jsnum \<Rightarrow> jsnum \<Rightarrow> jsnum" where
  "js_add NaN _ = NaN"
| "js_add _ NaN = NaN"
| "js_add PInf NInf = NaN"
| "js_add NInf PInf = NaN"
| "js_add PInf _ = PInf"
| "js_add _ PInf = PInf"
| "js_add NInf _ = NInf"
| "js_add _ NInf = NInf"
| "js_add (Fin a) (Fin b) = Fin (a + b)"

definition js_sub :: "jsnum \<Rightarrow> jsnum \<Rightarrow> jsnum" where
  "js_sub a b = js_add a (js_neg b)"

text \<open>The sign of a product with an infinite factor; a zero factor gives \<open>NaN\<close>.\<close>

definition inf_times :: "bool \<Rightarrow> real \<Rightarrow> jsnum" where
  "inf_times positive a =
     (if a = 0 then NaN else if (0 < a) = positive then PInf else NInf)"

fun js_mul :: "jsnum \<Rightarrow> jsnum \<Rightarrow> jsnum" where
  "js_mul NaN _ = NaN"
| "js_mul _ NaN = NaN"
| "js_mul PInf PInf = PInf"
| "js_mul PInf NInf = NInf"
| "js_mul NInf PInf = NInf"
| "js_mul NInf NInf = PInf"
| "js_mul PInf (Fin a) = inf_times True a"
| "js_mul NInf (Fin a) = inf_times False a"
| "js_mul (Fin a) PInf = inf_times True a"
| "js_mul (Fin a) NInf = inf_times False a"
| "js_mul (Fin a) (Fin b) = Fin (a * b)"

text \<open>
  Division. A zero divisor is taken as \<open>+0\<close>, the only zero the program divides by
  (the literals of \<open>initData\<close>).
\<close>

fun js_div :: "jsnum \<Rightarrow> jsnum \<Rightarrow> jsnum" where
  "js_div NaN _ = NaN"
| "js_div _ NaN = NaN"
| "js_div (Fin a) (Fin b) =
     (if b = 0 then (if a = 0 then NaN else if 0 < a then PInf else NInf)
      else Fin (a / b))"
| "js_div (Fin a) _ = Fin 0"
| "js_div PInf (Fin b) = (if 0 \<le> b then PInf else NInf)"
| "js_div NInf (Fin b) = (if 0 \<le> b then NInf else PInf)"
| "js_div _ _ = NaN"

fun js_abs :: "jsnum \<Rightarrow> jsnum" where
  "js_abs NaN = NaN"
| "js_abs PInf = PInf"
| "js_abs NInf = PInf"
| "js_abs (Fin a) = Fin \<bar>a\<bar>"

text \<open>\<open>Math.max\<close> of two arguments: \<open>NaN\<close> as soon as one argument is \<open>NaN\<close>.\<close>

fun js_max :: "jsnum \<Rightarrow> jsnum \<Rightarrow> jsnum" where
  "js_max NaN _ = NaN"
| "js_max _ NaN = NaN"
| "js_max a b = (if js_lt a b then b else a)"

section \<open>Data of the QC line simulator\<close>

text \<open>
  The records follow the object literals of \<open>QCLineSimulator\<close>. Fields that only feed
  the renderer (meshes, colours, display names, the y and z coordinates) are left out.
  A JavaScript \<open>Map\<close> is an association list in insertion order: \<open>AList.update\<close> is
  \<open>Map.set\<close> (an existing key keeps its place, a new one goes to the end),
  \<open>map_of\<close> is \<open>Map.get\<close> and \<open>AList.delete\<close> is \<open>Map.delete\<close>.
\<close>

record profile =
  name :: string
  diameter_mm :: jsnum
  target_height_mm :: jsnum
  height_tol_mm :: jsnum
  softness_range_N :: "jsnum \<times> jsnum"

type_synonym profiles = "(string \<times> profile) list"

record reading =
  sensorId :: string
  timestamp :: int
  rvalue :: jsnum
  rtype :: string

text \<open>
  The reason of a verdict is a template string in the source, with the numbers printed
  by \<open>toFixed\<close>. The model keeps which template was chosen and the numbers put into it.
\<close>

datatype reason =
    Unknown_profile
  | Softness_outside jsnum jsnum jsnum
  | Height_over jsnum jsnum
  | Height_under jsnum jsnum
  | Diameter_mismatch jsnum jsnum
  | All_within

text \<open>
  The id of an item is the string \<open>item_${Date.now()}_${random suffix}\<close>; the model keeps
  its two variable parts.
\<close>

type_synonym item_key = "int \<times> string"

record item =
  item_id :: item_key
  beltId :: string
  item_profile :: string
  item_diameter_mm :: jsnum
  item_target_height_mm :: jsnum
  measured_height_mm :: jsnum
  softness_N :: jsnum
  status :: string
  bucket :: "string option"
  qcReason :: "reason option"
  position_x :: jsnum
  velocity :: jsnum
  timestampIn :: int
  sensorReadings :: "reading list"

record qcResult =
  qc_status :: string
  qc_bucket :: string
  qc_reason :: reason

record sensor =
  sensor_type :: string
  sensor_beltId :: string
  sensor_x :: jsnum
  lastReading :: jsnum

record belt_counters =
  ok :: nat
  red :: nat
  green :: nat
  yellow :: nat

text \<open>\<open>wasRunning\<close> is absent from a fresh belt object, which reads as false.\<close>

record belt =
  speed_mps :: jsnum
  spawn_per_min :: jsnum
  belt_profile :: string
  belt_x :: jsnum
  enabled :: bool
  lastSpawn :: int
  belt_items :: "item_key list"
  counters :: belt_counters
  wasRunning :: bool

text \<open>The id of an alarm is \<open>alarm_${Date.now()}\<close>: the model keeps the time.\<close>

record alarm =
  alarm_id :: int
  alarm_timestamp :: int
  alarm_beltId :: string
  alarm_itemId :: item_key
  alarm_type :: string
  alarm_message :: "string \<times> reason"
  severity :: string

record run_statistics =
  totalItems :: nat
  okCount :: nat
  redCount :: nat
  greenCount :: nat
  yellowCount :: nat

record demo_scenarios =
  spikeHeight :: bool
  softnessDrift :: bool
  wrongProduct :: bool

record sim_config =
  height_sigma_mm :: jsnum
  softness_sigma_N :: jsnum
  sensorLatency :: jsnum
  rate_overHeight :: jsnum
  rate_underHeight :: jsnum
  rate_softnessNail :: jsnum

text \<open>
  The simulator object. Beside the fields of the constructor it holds what the program
  keeps outside of it:
  \<^item> \<open>lastTime\<close>, the local variable of \<open>start\<close> that the animation callback updates;
  \<^item> \<open>running\<close>, whether the animation callback is still scheduled: an uncaught
    \<open>TypeError\<close> inside a frame ends the loop, since the callback never reaches the
    \<open>requestAnimationFrame\<close> call that would schedule the next frame;
  \<^item> \<open>dispositions\<close>, the items for which a \<open>moveItemToBin\<close> animation has been
    started and has not finished yet;
  \<^item> \<open>bins\<close>, the keys of the map of bins; the fill level and the contents of a bin are
    written by the animation callback only and are not modelled;
  \<^item> \<open>belt_controls\<close> and \<open>speed_displays\<close>, the belt ids for which the page has the
    toggle button and status light, and the speed display, that \<open>toggleBelt\<close> and
    \<open>setBeltSpeed\<close> look up before they act.
\<close>

record simulator =
  isPaused :: bool
  simulationSpeed :: jsnum
  soundEnabled :: bool
  emergencyStop :: bool
  belts :: "(string \<times> belt) list"
  items :: "(item_key \<times> item) list"
  sensors :: "(string \<times> sensor) list"
  bins :: "string list"
  profiles :: profiles
  alarms :: "alarm list"
  statistics :: run_statistics
  scenarios :: demo_scenarios
  config :: sim_config
  lastTime :: int
  running :: bool
  dispositions :: "item_key list"
  belt_controls :: "string list"
  speed_displays :: "string list"

text \<open>
  The outcomes of the random draws of one \<open>createBrushItem\<close> call: the suffix of the id,
  the value returned by each \<open>gaussianRandom()\<close> call (a Box-Muller transform of two
  non-zero uniform draws, hence finite), and the value of each \<open>Math.random()\<close> call in
  \<open>simulateHeight\<close>, in \<open>simulateSoftness\<close> and in the two scenarios that draw.
\<close>

record draws =
  id_rand :: string
  h_gauss :: real
  h_rand1 :: real
  h_rand2 :: real
  h_rand3 :: real
  s_gauss :: real
  s_rand1 :: real
  s_rand2 :: real
  spike_rand :: real
  wrong_rand :: real

section \<open>Classification\<close>

definition evaluateQC :: "profiles \<Rightarrow> item \<Rightarrow> qcResult" where
  "evaluateQC ps it =
     (case map_of ps (item_profile it) of
        None \<Rightarrow> \<lparr>qc_status = ''ERROR'', qc_bucket = ''RED_BIN'', qc_reason = Unknown_profile\<rparr>
      | Some p \<Rightarrow>
          (let minSoftness = fst (softness_range_N p);
               maxSoftness = snd (softness_range_N p)
           in if js_lt (softness_N it) minSoftness \<or> js_gt (softness_N it) maxSoftness
              then \<lparr>qc_status = ''SOFT_FAIL'', qc_bucket = ''YELLOW_BIN'',
                    qc_reason = Softness_outside (softness_N it) minSoftness maxSoftness\<rparr>
              else
                (let heightDiff = js_sub (measured_height_mm it) (target_height_mm p)
                 in if js_ge (js_abs heightDiff) (height_tol_mm p)
                    then (if js_ge heightDiff (height_tol_mm p)
                          then \<lparr>qc_status = ''OVER_HEIGHT'', qc_bucket = ''GREEN_BIN'',
                                qc_reason = Height_over (measured_height_mm it) heightDiff\<rparr>
                          else \<lparr>qc_status = ''UNDER_HEIGHT'', qc_bucket = ''RED_BIN'',
                                qc_reason =
                                  Height_under (measured_height_mm it) (js_abs heightDiff)\<rparr>)
                    else if js_gt (js_abs (js_sub (item_diameter_mm it) (diameter_mm p))) (Fin 1)
                    then \<lparr>qc_status = ''SIZE_DOWN'', qc_bucket = ''RED_BIN'',
                          qc_reason = Diameter_mismatch (item_diameter_mm it) (diameter_mm p)\<rparr>
                    else \<lparr>qc_status = ''OK'', qc_bucket = ''OK_BIN'',
                          qc_reason = All_within\<rparr>)))"

text \<open>The three checks of \<open>evaluateQC\<close>, as the source writes their conditions.\<close>

definition softness_fails :: "profile \<Rightarrow> item \<Rightarrow> bool" where
  "softness_fails p it \<longleftrightarrow>
     js_lt (softness_N it) (fst (softness_range_N p)) \<or>
     js_gt (softness_N it) (snd (softness_range_N p))"

definition heightDiff :: "profile \<Rightarrow> item \<Rightarrow> jsnum" where
  "heightDiff p it = js_sub (measured_height_mm it) (target_height_mm p)"

definition height_fails :: "profile \<Rightarrow> item \<Rightarrow> bool" where
  "height_fails p it \<longleftrightarrow> js_ge (js_abs (heightDiff p it)) (height_tol_mm p)"

definition size_fails :: "profile \<Rightarrow> item \<Rightarrow> bool" where
  "size_fails p it \<longleftrightarrow>
     js_gt (js_abs (js_sub (item_diameter_mm it) (diameter_mm p))) (Fin 1)"

section \<open>Alarms and counters\<close>

text \<open>The alarm object that \<open>createAlarm\<close> builds.\<close>

definition newAlarm :: "int \<Rightarrow> item \<Rightarrow> qcResult \<Rightarrow> alarm" where
  "newAlarm now it qc =
     \<lparr>alarm_id = now, alarm_timestamp = now, alarm_beltId = beltId it,
      alarm_itemId = item_id it, alarm_type = qc_status qc,
      alarm_message = (beltId it, qc_reason qc),
      severity = (if qc_bucket qc = ''YELLOW_BIN'' then ''yellow''
                  else if qc_bucket qc = ''GREEN_BIN'' then ''green''
                  else ''red'')\<rparr>"

text \<open>\<open>unshift\<close> puts the alarm in front; \<open>slice(0, 20)\<close> keeps the first twenty.\<close>

definition createAlarm :: "int \<Rightarrow> item \<Rightarrow> qcResult \<Rightarrow> simulator \<Rightarrow> simulator" where
  "createAlarm now it qc st =
     (let unshifted = newAlarm now it qc # alarms st
      in st\<lparr>alarms := (if length unshifted > 20 then take 20 unshifted else unshifted)\<rparr>)"

text \<open>
  The chain of \<open>if\<close>s of \<open>processItem\<close> that increments one counter of the belt and
  the matching global counter.
\<close>

definition updateCounters ::
  "qcResult \<Rightarrow> belt_counters \<Rightarrow> run_statistics \<Rightarrow> belt_counters \<times> run_statistics" where
  "updateCounters qc c s =
     (if qc_status qc = ''OK'' then (c\<lparr>ok := ok c + 1\<rparr>, s\<lparr>okCount := okCount s + 1\<rparr>)
      else if qc_bucket qc = ''RED_BIN''
        then (c\<lparr>red := red c + 1\<rparr>, s\<lparr>redCount := redCount s + 1\<rparr>)
      else if qc_bucket qc = ''GREEN_BIN''
        then (c\<lparr>green := green c + 1\<rparr>, s\<lparr>greenCount := greenCount s + 1\<rparr>)
      else if qc_bucket qc = ''YELLOW_BIN''
        then (c\<lparr>yellow := yellow c + 1\<rparr>, s\<lparr>yellowCount := yellowCount s + 1\<rparr>)
      else (c, s))"

text \<open>\<open>beltId.slice(-1)\<close>: the last character, or the empty string.\<close>

definition slice_last :: "string \<Rightarrow> string" where
  "slice_last s = (if s = [] then [] else [last s])"

definition requiredSensors :: "item \<Rightarrow> string list" where
  "requiredSensors it =
     [''S_SOFT_'' @ slice_last (beltId it), ''S_HEIGHT_'' @ slice_last (beltId it),
      ''S_SIZE_'' @ slice_last (beltId it)]"

text \<open>
  \<open>processItem\<close> changes the item and the simulator; the item is handed back beside the
  new simulator. When the belt of the item is not in the map of belts, the first
  counter increment raises a \<open>TypeError\<close> after the verdict has been written to the item:
  the frame is abandoned there and the animation loop ends.
\<close>

definition processItem :: "int \<Rightarrow> simulator \<Rightarrow> item \<Rightarrow> simulator \<times> item" where
  "processItem now st it =
     (if status it \<noteq> ''PROCESSING'' then (st, it)
      else
        (let completedSensors = map sensorId (sensorReadings it)
         in if list_all (\<lambda>s. s \<in> set completedSensors) (requiredSensors it)
            then
              (let qcResult = evaluateQC (profiles st) it;
                   it' = it\<lparr>status := qc_status qcResult,
                            bucket := Some (qc_bucket qcResult),
                            qcReason := Some (qc_reason qcResult)\<rparr>
               in case map_of (belts st) (beltId it) of
                    None \<Rightarrow> (st\<lparr>running := False\<rparr>, it')
                  | Some b \<Rightarrow>
                      (let (c, s) = updateCounters qcResult (counters b) (statistics st);
                           st1 = st\<lparr>belts := AList.update (beltId it) (b\<lparr>counters := c\<rparr>) (belts st),
                                    statistics := s\<lparr>totalItems := totalItems s + 1\<rparr>\<rparr>
                       in (if qc_status qcResult \<noteq> ''OK''
                           then createAlarm now it' qcResult st1 else st1, it')))
            else (st, it)))"

section \<open>Sensors\<close>

text \<open>The \<open>switch\<close> on the type of the sensor; no case matches leaves \<open>undefined\<close>,
  which reads as \<open>NaN\<close> in arithmetic.\<close>

definition sensorValue :: "string \<Rightarrow> item \<Rightarrow> jsnum" where
  "sensorValue ty it =
     (if ty = ''softness'' then softness_N it
      else if ty = ''height'' then measured_height_mm it
      else if ty = ''size'' then item_diameter_mm it
      else NaN)"

text \<open>The body of the \<open>forEach\<close> of \<open>checkSensorInteractions\<close>, for one sensor.\<close>

definition checkSensor :: "int \<Rightarrow> string \<Rightarrow> sensor \<Rightarrow> item \<Rightarrow> sensor \<times> item" where
  "checkSensor now sid sensor it =
     (if sensor_beltId sensor \<noteq> beltId it then (sensor, it)
      else if js_lt (js_abs (js_sub (position_x it) (sensor_x sensor))) (Fin 0.1)
      then (case find (\<lambda>r. sensorId r = sid) (sensorReadings it) of
              Some existingReading \<Rightarrow> (sensor, it)
            | None \<Rightarrow>
                (let v = sensorValue (sensor_type sensor) it
                 in (sensor\<lparr>lastReading := v\<rparr>,
                     it\<lparr>sensorReadings := sensorReadings it @
                          [\<lparr>sensorId = sid, timestamp = now, rvalue = v,
                            rtype = sensor_type sensor\<rparr>]\<rparr>)))
      else (sensor, it))"

fun checkSensorInteractions ::
  "int \<Rightarrow> (string \<times> sensor) list \<Rightarrow> item \<Rightarrow> (string \<times> sensor) list \<times> item" where
  "checkSensorInteractions now [] it = ([], it)"
| "checkSensorInteractions now ((sid, sensor) # rest) it =
     (let (sensor', it') = checkSensor now sid sensor it;
          (rest', it'') = checkSensorInteractions now rest it'
      in ((sid, sensor') # rest', it''))"

section \<open>Simulated measurements and spawning\<close>

definition simulateHeight :: "sim_config \<Rightarrow> jsnum \<Rightarrow> real \<Rightarrow> real \<Rightarrow> real \<Rightarrow> real \<Rightarrow> jsnum" where
  "simulateHeight cfg targetHeight g r1 r2 r3 =
     (let noise = js_mul (Fin g) (height_sigma_mm cfg);
          variation =
            (if js_lt (Fin r1) (rate_overHeight cfg) then Fin (r2 * 2 + 1)
             else if js_lt (Fin r2) (rate_underHeight cfg) then Fin (- (r3 * 2 + 1))
             else Fin ((r3 - 0.5) * 1.6))
      in js_add (js_add targetHeight variation) noise)"

definition simulateSoftness :: "sim_config \<Rightarrow> jsnum \<times> jsnum \<Rightarrow> real \<Rightarrow> real \<Rightarrow> real \<Rightarrow> jsnum" where
  "simulateSoftness cfg softnessRange g r1 r2 =
     (let min = fst softnessRange;
          max = snd softnessRange;
          target = js_div (js_add min max) (Fin 2);
          noise = js_mul (Fin g) (softness_sigma_N cfg);
          variation =
            (if js_lt (Fin r1) (rate_softnessNail cfg)
             then (if r2 < 0.5 then js_neg (js_add (js_sub target min) (Fin 0.5))
                   else js_add (js_sub max target) (Fin 0.5))
             else Fin ((r2 - 0.5) * 0.6))
      in js_max (Fin 0) (js_add (js_add target variation) noise))"

definition wrongDiameters :: "real list" where
  "wrongDiameters = [44, 51, 57, 70, 76, 83, 89, 102, 108, 114, 127, 133, 142, 152]"

text \<open>
  \<open>wrongDiameters[Math.floor(r * wrongDiameters.length)]\<close>; an index outside of the array
  reads \<open>undefined\<close>, which is \<open>NaN\<close> in the arithmetic of \<open>evaluateQC\<close>.
\<close>

definition wrongDiameter :: "real \<Rightarrow> jsnum" where
  "wrongDiameter r =
     (let i = \<lfloor>r * real (length wrongDiameters)\<rfloor>
      in if 0 \<le> i \<and> i < int (length wrongDiameters) then Fin (wrongDiameters ! nat i)
         else NaN)"

text \<open>The item object that \<open>createBrushItem\<close> builds for an enabled belt \<open>b\<close>.\<close>

definition newItem :: "simulator \<Rightarrow> int \<Rightarrow> draws \<Rightarrow> string \<Rightarrow> belt \<Rightarrow> profile \<Rightarrow> item" where
  "newItem st now d bid b p =
     (let it0 = \<lparr>item_id = (now, id_rand d), beltId = bid, item_profile = name p,
                 item_diameter_mm = diameter_mm p,
                 item_target_height_mm = target_height_mm p,
                 measured_height_mm =
                   simulateHeight (config st) (target_height_mm p)
                     (h_gauss d) (h_rand1 d) (h_rand2 d) (h_rand3 d),
                 softness_N =
                   simulateSoftness (config st) (softness_range_N p)
                     (s_gauss d) (s_rand1 d) (s_rand2 d),
                 status = ''PROCESSING'', bucket = None, qcReason = None,
                 position_x = js_sub (belt_x b) (Fin 2.5),
                 velocity = speed_mps b, timestampIn = now, sensorReadings = []\<rparr>;
          it1 = (if spikeHeight (scenarios st)
                 then it0\<lparr>measured_height_mm :=
                        js_add (measured_height_mm it0) (Fin ((spike_rand d - 0.5) * 4))\<rparr>
                 else it0);
          it2 = (if softnessDrift (scenarios st)
                 then it1\<lparr>softness_N := js_add (softness_N it1) (Fin 0.5)\<rparr>
                 else it1)
      in if wrongProduct (scenarios st)
         then it2\<lparr>item_diameter_mm := wrongDiameter (wrong_rand d)\<rparr>
         else it2)"

definition createBrushItem :: "simulator \<Rightarrow> int \<Rightarrow> draws \<Rightarrow> string \<Rightarrow> profile \<Rightarrow> simulator" where
  "createBrushItem st now d bid p =
     (case map_of (belts st) bid of
        None \<Rightarrow> st
      | Some b \<Rightarrow>
          if \<not> enabled b then st
          else
            (let it = newItem st now d bid b p
             in st\<lparr>items := AList.update (item_id it) it (items st),
                    belts := AList.update bid (b\<lparr>belt_items := belt_items b @ [item_id it]\<rparr>)
                               (belts st)\<rparr>))"

definition spawnInterval :: "belt \<Rightarrow> jsnum" where
  "spawnInterval b = js_mul (js_div (Fin 60) (spawn_per_min b)) (Fin 1000)"

text \<open>The body of the \<open>forEach\<close> of \<open>spawnItems\<close>, for the belt stored under one key.\<close>

definition spawnOnBelt :: "int \<Rightarrow> (string \<Rightarrow> draws) \<Rightarrow> string \<Rightarrow> simulator \<Rightarrow> simulator" where
  "spawnOnBelt now ds bid st =
     (case map_of (belts st) bid of
        None \<Rightarrow> st
      | Some b \<Rightarrow>
          if \<not> enabled b \<or> emergencyStop st then st
          else if js_gt (Fin (of_int (now - lastSpawn b))) (spawnInterval b)
          then (case map_of (profiles st) (belt_profile b) of
                  None \<Rightarrow> st
                | Some p \<Rightarrow>
                    (let st1 = createBrushItem st now (ds bid) bid p
                     in st1\<lparr>belts := AList.map_entry bid (\<lambda>b. b\<lparr>lastSpawn := now\<rparr>) (belts st1)\<rparr>))
          else st)"

definition spawnItems :: "int \<Rightarrow> (string \<Rightarrow> draws) \<Rightarrow> simulator \<Rightarrow> simulator" where
  "spawnItems now ds st = fold (spawnOnBelt now ds) (map fst (belts st)) st"

section \<open>Transport\<close>

text \<open>
  \<open>moveItemToBin\<close> starts an animation when the bucket of the item names a bin; the
  animation marks the item \<open>COMPLETED\<close> when it ends, about a second later
  (\<open>finishDisposition\<close> below).
\<close>

definition moveItemToBin :: "simulator \<Rightarrow> item \<Rightarrow> simulator" where
  "moveItemToBin st it =
     (case bucket it of
        None \<Rightarrow> st
      | Some b \<Rightarrow> if b \<in> set (bins st) then st\<lparr>dispositions := dispositions st @ [item_id it]\<rparr>
                  else st)"

definition removeItem :: "simulator \<Rightarrow> item_key \<Rightarrow> simulator" where
  "removeItem st k =
     (case map_of (items st) k of
        None \<Rightarrow> st
      | Some it \<Rightarrow>
          (let st1 = (case map_of (belts st) (beltId it) of
                        None \<Rightarrow> st
                      | Some b \<Rightarrow>
                          st\<lparr>belts := AList.update (beltId it)
                                (b\<lparr>belt_items := remove1 k (belt_items b)\<rparr>) (belts st)\<rparr>)
           in st1\<lparr>items := AList.delete k (items st1)\<rparr>))"

text \<open>
  The last two steps of the body of the \<open>forEach\<close> of \<open>updateItems\<close>: an item that
  has a verdict and has passed x = 2 is sent to its bin, and an item beyond x = 4 is
  removed.
\<close>

definition routeItem :: "item_key \<Rightarrow> item \<Rightarrow> simulator \<Rightarrow> simulator" where
  "routeItem k it st =
     (let st' = (if status it \<noteq> ''PROCESSING'' \<and> js_gt (position_x it) (Fin 2.0)
                 then moveItemToBin st it else st)
      in if js_gt (position_x it) (Fin 4) then removeItem st' k else st')"

text \<open>
  The body of the \<open>forEach\<close> of \<open>updateItems\<close>, for the item stored under one key. The
  item object is taken out of the map, changed, and written back before the steps that
  read the map. When \<open>processItem\<close> has raised, the rest of the body is skipped.
\<close>

definition updateItem :: "jsnum \<Rightarrow> int \<Rightarrow> item_key \<Rightarrow> simulator \<Rightarrow> simulator" where
  "updateItem deltaTime now k st =
     (case map_of (items st) k of
        None \<Rightarrow> st
      | Some it \<Rightarrow>
          if status it = ''COMPLETED'' then st
          else
            (let it1 = it\<lparr>position_x :=
                          js_add (position_x it)
                            (js_mul (js_mul (velocity it) deltaTime) (simulationSpeed st))\<rparr>;
                 (sensors', it2) = checkSensorInteractions now (sensors st) it1;
                 (st2, it3) = processItem now (st\<lparr>sensors := sensors'\<rparr>) it2;
                 st3 = st2\<lparr>items := AList.update k it3 (items st2)\<rparr>
             in if \<not> running st3 then st3 else routeItem k it3 st3))"

text \<open>An exception raised for one item ends the \<open>forEach\<close>.\<close>

definition updateItems :: "jsnum \<Rightarrow> int \<Rightarrow> simulator \<Rightarrow> simulator" where
  "updateItems deltaTime now st =
     fold (\<lambda>k s. if running s then updateItem deltaTime now k s else s) (map fst (items st)) st"

text \<open>The end of the animation that \<open>moveItemToBin\<close> started for an item.\<close>

definition finishDisposition :: "item_key \<Rightarrow> simulator \<Rightarrow> simulator" where
  "finishDisposition k st =
     (if k \<in> set (dispositions st)
      then st\<lparr>dispositions := remove1 k (dispositions st),
              items := AList.map_entry k (\<lambda>it. it\<lparr>status := ''COMPLETED''\<rparr>) (items st)\<rparr>
      else st)"

text \<open>
  One call of the animation callback of \<open>start\<close> at time \<open>now\<close>. One reading of the clock
  stands for all \<open>Date.now()\<close> calls of the frame.
\<close>

definition animate :: "int \<Rightarrow> (string \<Rightarrow> draws) \<Rightarrow> simulator \<Rightarrow> simulator" where
  "animate now ds st =
     (if \<not> running st \<or> isPaused st then st
      else
        (let deltaTime = Fin (of_int (now - lastTime st) / 1000);
             st1 = st\<lparr>lastTime := now\<rparr>
         in updateItems deltaTime now (spawnItems now ds st1)))"

section \<open>Controls\<close>

definition toggleBelt :: "string \<Rightarrow> simulator \<Rightarrow> simulator" where
  "toggleBelt bid st =
     (case map_of (belts st) bid of
        None \<Rightarrow> st
      | Some b \<Rightarrow>
          if bid \<in> set (belt_controls st)
          then st\<lparr>belts := AList.update bid (b\<lparr>enabled := \<not> enabled b\<rparr>) (belts st)\<rparr>
          else st)"

definition setBeltSpeed :: "string \<Rightarrow> jsnum \<Rightarrow> simulator \<Rightarrow> simulator" where
  "setBeltSpeed bid speed st =
     (case map_of (belts st) bid of
        None \<Rightarrow> st
      | Some b \<Rightarrow>
          if bid \<in> set (speed_displays st)
          then st\<lparr>belts := AList.update bid (b\<lparr>speed_mps := speed\<rparr>) (belts st),
                  items := map (\<lambda>(k, it). (k, if beltId it = bid then it\<lparr>velocity := speed\<rparr> else it))
                             (items st)\<rparr>
          else st)"

definition setBeltProfile :: "string \<Rightarrow> string \<Rightarrow> simulator \<Rightarrow> simulator" where
  "setBeltProfile bid profileName st =
     (case map_of (belts st) bid of
        None \<Rightarrow> st
      | Some b \<Rightarrow> st\<lparr>belts := AList.update bid (b\<lparr>belt_profile := profileName\<rparr>) (belts st)\<rparr>)"

text \<open>The bodies of the two \<open>forEach\<close> loops of \<open>toggleEmergencyStop\<close>.\<close>

definition stopBelt :: "string \<Rightarrow> simulator \<Rightarrow> simulator" where
  "stopBelt bid st =
     (case map_of (belts st) bid of
        None \<Rightarrow> st
      | Some b \<Rightarrow>
          if enabled b
          then toggleBelt bid (st\<lparr>belts := AList.update bid (b\<lparr>wasRunning := True\<rparr>) (belts st)\<rparr>)
          else st)"

definition restartBelt :: "string \<Rightarrow> simulator \<Rightarrow> simulator" where
  "restartBelt bid st =
     (case map_of (belts st) bid of
        None \<Rightarrow> st
      | Some b \<Rightarrow>
          if wasRunning b
          then (let st1 = toggleBelt bid st
                in st1\<lparr>belts := AList.map_entry bid (\<lambda>b. b\<lparr>wasRunning := False\<rparr>) (belts st1)\<rparr>)
          else st)"

definition toggleEmergencyStop :: "simulator \<Rightarrow> simulator" where
  "toggleEmergencyStop st =
     (let st1 = st\<lparr>emergencyStop := \<not> emergencyStop st\<rparr>
      in if emergencyStop st1 then fold stopBelt (map fst (belts st1)) st1
         else fold restartBelt (map fst (belts st1)) st1)"

definition togglePause :: "simulator \<Rightarrow> simulator" where
  "togglePause st = st\<lparr>isPaused := \<not> isPaused st\<rparr>"

datatype scenario_name = SpikeHeight | SoftnessDrift | WrongProduct

fun toggleScenario :: "scenario_name \<Rightarrow> simulator \<Rightarrow> simulator" where
  "toggleScenario SpikeHeight st =
     st\<lparr>scenarios := (scenarios st)\<lparr>spikeHeight := \<not> spikeHeight (scenarios st)\<rparr>\<rparr>"
| "toggleScenario SoftnessDrift st =
     st\<lparr>scenarios := (scenarios st)\<lparr>softnessDrift := \<not> softnessDrift (scenarios st)\<rparr>\<rparr>"
| "toggleScenario WrongProduct st =
     st\<lparr>scenarios := (scenarios st)\<lparr>wrongProduct := \<not> wrongProduct (scenarios st)\<rparr>\<rparr>"

definition resetScenarios :: "simulator \<Rightarrow> simulator" where
  "resetScenarios st =
     st\<lparr>scenarios := \<lparr>spikeHeight = False, softnessDrift = False, wrongProduct = False\<rparr>\<rparr>"

definition clearAlarms :: "simulator \<Rightarrow> simulator" where
  "clearAlarms st = st\<lparr>alarms := []\<rparr>"

section \<open>Configuration\<close>

text \<open>
  \<open>saveProfileChanges\<close> reads the selected profile name and five form fields; the
  arguments are the name and the results of the five \<open>parseFloat\<close> calls.
\<close>

definition saveProfileChanges ::
  "string \<Rightarrow> jsnum \<Rightarrow> jsnum \<Rightarrow> jsnum \<Rightarrow> jsnum \<Rightarrow> jsnum \<Rightarrow> simulator \<Rightarrow> simulator" where
  "saveProfileChanges profileName diameter height tolerance softnessMin softnessMax st =
     (case map_of (profiles st) profileName of
        None \<Rightarrow> st
      | Some p \<Rightarrow>
          st\<lparr>profiles := AList.update profileName
                (p\<lparr>diameter_mm := diameter, target_height_mm := height,
                   height_tol_mm := tolerance,
                   softness_range_N := (softnessMin, softnessMax)\<rparr>) (profiles st)\<rparr>)"

definition saveSensorSettings :: "jsnum \<Rightarrow> jsnum \<Rightarrow> jsnum \<Rightarrow> simulator \<Rightarrow> simulator" where
  "saveSensorSettings heightNoise softnessNoise latency st =
     st\<lparr>config := (config st)\<lparr>height_sigma_mm := heightNoise,
                               softness_sigma_N := softnessNoise,
                               sensorLatency := latency\<rparr>\<rparr>"

text \<open>The data of \<open>initData\<close>.\<close>

definition brush64 :: profile where
  "brush64 = \<lparr>name = ''Brush-64'', diameter_mm = Fin 64, target_height_mm = Fin 45,
     height_tol_mm = Fin 1.0, softness_range_N = (Fin 2.0, Fin 3.5)\<rparr>"

definition brush95 :: profile where
  "brush95 = \<lparr>name = ''Brush-95'', diameter_mm = Fin 95, target_height_mm = Fin 50,
     height_tol_mm = Fin 1.0, softness_range_N = (Fin 2.2, Fin 3.2)\<rparr>"

definition brush121 :: profile where
  "brush121 = \<lparr>name = ''Brush-121'', diameter_mm = Fin 121, target_height_mm = Fin 55,
     height_tol_mm = Fin 1.0, softness_range_N = (Fin 2.5, Fin 3.0)\<rparr>"

definition profilesData :: profiles where
  "profilesData = [(''Brush-64'', brush64), (''Brush-95'', brush95), (''Brush-121'', brush121)]"

definition newBelt :: "real \<Rightarrow> real \<Rightarrow> string \<Rightarrow> belt" where
  "newBelt speed spawn prof =
     \<lparr>speed_mps = Fin speed, spawn_per_min = Fin spawn, belt_profile = prof,
      belt_x = Fin (- 2), enabled = False, lastSpawn = 0, belt_items = [],
      counters = \<lparr>ok = 0, red = 0, green = 0, yellow = 0\<rparr>, wasRunning = False\<rparr>"

definition beltsData :: "(string \<times> belt) list" where
  "beltsData = [(''B1'', newBelt 0.3 18 ''Brush-64''), (''B2'', newBelt 0.25 14 ''Brush-95''),
                (''B3'', newBelt 0.35 22 ''Brush-121'')]"

definition binsData :: "string list" where
  "binsData = [''OK_BIN'', ''RED_BIN'', ''GREEN_BIN'', ''YELLOW_BIN'']"

text \<open>\<open>initData\<close> stores every profile, belt and bin of its tables under its key.\<close>

definition initData :: "simulator \<Rightarrow> simulator" where
  "initData st =
     st\<lparr>profiles := fold (\<lambda>(k, p). AList.update k p) profilesData (profiles st),
        belts := fold (\<lambda>(k, b). AList.update k b) beltsData (belts st),
        bins := fold (\<lambda>k ks. if k \<in> set ks then ks else ks @ [k]) binsData (bins st)\<rparr>"

definition resetConfiguration :: "simulator \<Rightarrow> simulator" where
  "resetConfiguration st =
     initData (st\<lparr>config := (config st)\<lparr>height_sigma_mm := Fin 0.2,
                                         softness_sigma_N := Fin 0.1,
                                         sensorLatency := Fin 50\<rparr>\<rparr>)"

text \<open>The sensors of \<open>createSensors\<close>.\<close>

definition newSensor :: "string \<Rightarrow> string \<Rightarrow> real \<Rightarrow> sensor" where
  "newSensor ty bid x =
     \<lparr>sensor_type = ty, sensor_beltId = bid, sensor_x = Fin x, lastReading = Fin 0\<rparr>"

definition sensorPositions :: "(string \<times> sensor) list" where
  "sensorPositions =
     [(''S_SOFT_1'', newSensor ''softness'' ''B1'' 0),
      (''S_HEIGHT_1'', newSensor ''height'' ''B1'' 0.5),
      (''S_SIZE_1'', newSensor ''size'' ''B1'' 1),
      (''S_SOFT_2'', newSensor ''softness'' ''B2'' 0),
      (''S_HEIGHT_2'', newSensor ''height'' ''B2'' 0.5),
      (''S_SIZE_2'', newSensor ''size'' ''B2'' 1),
      (''S_SOFT_3'', newSensor ''softness'' ''B3'' 0),
      (''S_HEIGHT_3'', newSensor ''height'' ''B3'' 0.5),
      (''S_SIZE_3'', newSensor ''size'' ''B3'' 1)]"

text \<open>
  The simulator after its constructor has run, on a page with the given belt controls
  and speed displays, the animation loop started at time \<open>t0\<close>.
\<close>

definition constructed :: "int \<Rightarrow> string list \<Rightarrow> string list \<Rightarrow> simulator" where
  "constructed t0 controls displays =
     initData
       \<lparr>isPaused = False, simulationSpeed = Fin 1.0, soundEnabled = True,
        emergencyStop = False, belts = [], items = [], sensors = sensorPositions,
        bins = [], profiles = [], alarms = [],
        statistics = \<lparr>totalItems = 0, okCount = 0, redCount = 0, greenCount = 0,
                       yellowCount = 0\<rparr>,
        scenarios = \<lparr>spikeHeight = False, softnessDrift = False, wrongProduct = False\<rparr>,
        config = \<lparr>height_sigma_mm = Fin 0.2, softness_sigma_N = Fin 0.1,
                   sensorLatency = Fin 50, rate_overHeight = Fin 0.02,
                   rate_underHeight = Fin 0.03, rate_softnessNail = Fin 0.03\<rparr>,
        lastTime = t0, running = True, dispositions = [],
        belt_controls = controls, speed_displays = displays\<rparr>"

section \<open>Operations on the running simulator\<close>

text \<open>
  What can happen to the simulator once it runs: an animation frame, the end of a
  disposition animation, or one of the handlers that \<open>initUI\<close> and
  \<open>initConfigurationUI\<close> attach to the page.
\<close>

datatype operation =
    Frame int "string \<Rightarrow> draws"
  | FinishDisposition item_key
  | ToggleBelt string
  | SetBeltSpeed string jsnum
  | SetBeltProfile string string
  | ToggleEmergencyStop
  | TogglePause
  | SetSound bool
  | ToggleScenario scenario_name
  | ResetScenarios
  | ClearAlarms
  | SaveProfileChanges string jsnum jsnum jsnum jsnum jsnum
  | SaveSensorSettings jsnum jsnum jsnum
  | ResetConfiguration

fun perform :: "operation \<Rightarrow> simulator \<Rightarrow> simulator" where
  "perform (Frame now ds) st = animate now ds st"
| "perform (FinishDisposition k) st = finishDisposition k st"
| "perform (ToggleBelt bid) st = toggleBelt bid st"
| "perform (SetBeltSpeed bid speed) st = setBeltSpeed bid speed st"
| "perform (SetBeltProfile bid p) st = setBeltProfile bid p st"
| "perform ToggleEmergencyStop st = toggleEmergencyStop st"
| "perform TogglePause st = togglePause st"
| "perform (SetSound b) st = st\<lparr>soundEnabled := b\<rparr>"
| "perform (ToggleScenario n) st = toggleScenario n st"
| "perform ResetScenarios st = resetScenarios st"
| "perform ClearAlarms st = clearAlarms st"
| "perform (SaveProfileChanges n d h t lo hi) st = saveProfileChanges n d h t lo hi st"
| "perform (SaveSensorSettings hs ss l) st = saveSensorSettings hs ss l st"
| "perform ResetConfiguration st = resetConfiguration st"

definition run :: "operation list \<Rightarrow> simulator \<Rightarrow> simulator" where
  "run ops st = fold perform ops st"

section \<open>Sample data\<close>

text \<open>
  An item of profile Brush-64 on belt B1 as \<open>createBrushItem\<close> builds it, with the three
  measured quantities given: height, softness, diameter.
\<close>

definition brush64_item :: "real \<Rightarrow> real \<Rightarrow> real \<Rightarrow> item" where
  "brush64_item h s d =
     \<lparr>item_id = (1000, ''k3x9q2m1z''), beltId = ''B1'', item_profile = ''Brush-64'',
      item_diameter_mm = Fin d, item_target_height_mm = Fin 45,
      measured_height_mm = Fin h, softness_N = Fin s, status = ''PROCESSING'',
      bucket = None, qcReason = None, position_x = Fin (- 4.5), velocity = Fin 0.3,
      timestampIn = 1000, sensorReadings = []\<rparr>"

text \<open>Draws of a spawn that trigger no defect, and a full alarm log.\<close>

definition nominal_draws :: draws where
  "nominal_draws =
     \<lparr>id_rand = ''k3x9q2m1z'', h_gauss = 0, h_rand1 = 0.5, h_rand2 = 0.5, h_rand3 = 0.5,
      s_gauss = 0, s_rand1 = 0.5, s_rand2 = 0.5, spike_rand = 0.5, wrong_rand = 0.5\<rparr>"

definition soft_fail_result :: qcResult where
  "soft_fail_result = evaluateQC profilesData (brush64_item 45 1.5 64)"

definition full_log :: simulator where
  "full_log =
     (constructed 0 [''B1'', ''B2'', ''B3''] [''B1'', ''B2'', ''B3''])
       \<lparr>alarms := map (\<lambda>t. newAlarm (int t) (brush64_item 45 1.5 64) soft_fail_result)
                    (rev [1..<21])\<rparr>"

text \<open>
  A page with all belt controls; belt B1 started, then frames at 5, 15 and 15.1 seconds.
  The first frame spawns an item on B1 and moves it to x = -3, the second moves it to
  x = 0, on the softness gate, and the third to x = 0.03, still within the tolerance of
  the gate.
\<close>

definition fresh_line :: simulator where
  "fresh_line = constructed 0 [''B1'', ''B2'', ''B3''] [''B1'', ''B2'', ''B3'']"

definition to_the_gate :: "operation list" where
  "to_the_gate =
     [ToggleBelt ''B1'', Frame 5000 (\<lambda>_. nominal_draws), Frame 15000 (\<lambda>_. nominal_draws)]"

definition at_the_gate :: "operation list" where
  "at_the_gate = to_the_gate @ [Frame 15100 (\<lambda>_. nominal_draws)]"

text \<open>
  No two readings of an item carry the same sensor id; and this for every item of the
  simulator.
\<close>

definition once :: "item \<Rightarrow> bool" where
  "once it \<longleftrightarrow> distinct (map sensorId (sensorReadings it))"

definition all_once :: "simulator \<Rightarrow> bool" where
  "all_once st \<longleftrightarrow> (\<forall>(k, it) \<in> set (items st). once it)"

text \<open>
  Belt B1 runs, spawns an item at 5 seconds and is stopped; the frame at 100 seconds
  finds the lane disabled. The lane is started again after that frame.
\<close>

definition paused_lane :: "operation list" where
  "paused_lane =
     [ToggleBelt ''B1'', Frame 5000 (\<lambda>_. nominal_draws), ToggleBelt ''B1'',
      Frame 100000 (\<lambda>_. nominal_draws)]"

definition paused_line :: simulator where
  "paused_line = run paused_lane fresh_line"

definition restarted_line :: simulator where
  "restarted_line = toggleBelt ''B1'' paused_line"

text \<open>
  Belt B1 runs and spawns an item at 5 seconds; then the emergency stop is engaged.
  Frames at 15, 16.7 and 18.4 seconds carry the item over the three gates of the belt.
\<close>

definition stopped_line :: simulator where
  "stopped_line =
     run [ToggleBelt ''B1'', Frame 5000 (\<lambda>_. nominal_draws), ToggleEmergencyStop] fresh_line"

definition over_the_gates :: "operation list" where
  "over_the_gates =
     [Frame 15000 (\<lambda>_. nominal_draws), Frame 16700 (\<lambda>_. nominal_draws),
      Frame 18400 (\<lambda>_. nominal_draws)]"

text \<open>
  The two flags of a belt that \<open>toggleEmergencyStop\<close> reads and writes, and what its two
  loops make of a belt whose page controls are present (\<open>ctl\<close>) or not.
\<close>

definition belt_flags :: "simulator \<Rightarrow> string \<Rightarrow> (bool \<times> bool) option" where
  "belt_flags st = (\<lambda>bid. map_option (\<lambda>b. (enabled b, wasRunning b)) (map_of (belts st) bid))"

definition stopped :: "bool \<Rightarrow> belt \<Rightarrow> belt" where
  "stopped ctl b = (if enabled b then b\<lparr>enabled := \<not> ctl, wasRunning := True\<rparr> else b)"

definition restarted :: "bool \<Rightarrow> belt \<Rightarrow> belt" where
  "restarted ctl b =
     (if wasRunning b
      then b\<lparr>enabled := (if ctl then \<not> enabled b else enabled b), wasRunning := False\<rparr>
      else b)"

text \<open>No belt is recorded as having been running.\<close>

definition no_record :: "simulator \<Rightarrow> bool" where
  "no_record st \<longleftrightarrow> (\<forall>bid b. map_of (belts st) bid = Some b \<longrightarrow> \<not> wasRunning b)"

text \<open>
  The operations that are neither a toggle of one belt, nor a toggle of the emergency
  stop, nor a reset of the configuration.
\<close>

fun quiet :: "operation \<Rightarrow> bool" where
  "quiet (ToggleBelt bid) = False"
| "quiet ToggleEmergencyStop = False"
| "quiet ResetConfiguration = False"
| "quiet _ = True"

text \<open>What \<open>toggleEmergencyStop\<close> reads of the simulator.\<close>

definition stop_view :: "simulator \<Rightarrow> bool \<times> string list \<times> (string \<Rightarrow> (bool \<times> bool) option)" where
  "stop_view st = (emergencyStop st, belt_controls st, belt_flags st)"

text \<open>When the emergency stop is released, no belt is recorded as having been running.\<close>

definition released_clean :: "simulator \<Rightarrow> bool" where
  "released_clean st \<longleftrightarrow> (\<not> emergencyStop st \<longrightarrow> no_record st)"

text \<open>
  Belts B1 and B3 run, B2 does not. While the emergency stop is engaged, frames pass
  and the speed of B1 is changed.
\<close>

definition two_running :: simulator where
  "two_running = run [ToggleBelt ''B1'', ToggleBelt ''B3''] fresh_line"

definition during_stop :: "operation list" where
  "during_stop =
     [Frame 5000 (\<lambda>_. nominal_draws), SetBeltSpeed ''B1'' (Fin 0.4),
      Frame 6000 (\<lambda>_. nominal_draws)]"

text \<open>The line after one item of belt B1 has been classified \<open>OK\<close>.\<close>

definition classified_line :: simulator where
  "classified_line = run over_the_gates stopped_line"

text \<open>
  Well-formedness of the simulator: the animation loop is alive, the keys of the map of
  items are distinct, and every item lies on a belt of the map of belts and has a
  softness that is not negative.
\<close>

definition item_ok :: "simulator \<Rightarrow> item \<Rightarrow> bool" where
  "item_ok st it \<longleftrightarrow> belt_flags st (beltId it) \<noteq> None \<and> \<not> js_lt (softness_N it) (Fin 0)"

definition well_formed :: "simulator \<Rightarrow> bool" where
  "well_formed st \<longleftrightarrow>
     running st \<and> distinct (map fst (items st)) \<and> (\<forall>(k, it) \<in> set (items st). item_ok st it)"

text \<open>
  What one frame does to an item that is not completed: \<open>moved\<close> advances its position,
  \<open>sensed\<close> lets the gates of its belt record their readings, and \<open>transit\<close> classifies it
  when the readings are complete. \<open>after_frame\<close> is what becomes of the entry of the map
  of items: a completed item is left alone, an item carried beyond x = 4 is removed.
\<close>

definition moved :: "jsnum \<Rightarrow> simulator \<Rightarrow> item \<Rightarrow> item" where
  "moved dt st it =
     it\<lparr>position_x := js_add (position_x it) (js_mul (js_mul (velocity it) dt) (simulationSpeed st))\<rparr>"

definition sensed :: "jsnum \<Rightarrow> int \<Rightarrow> simulator \<Rightarrow> item \<Rightarrow> item" where
  "sensed dt now st it = snd (checkSensorInteractions now (sensors st) (moved dt st it))"

definition transit :: "jsnum \<Rightarrow> int \<Rightarrow> simulator \<Rightarrow> item \<Rightarrow> item" where
  "transit dt now st it = snd (processItem now st (sensed dt now st it))"

definition after_frame :: "jsnum \<Rightarrow> int \<Rightarrow> simulator \<Rightarrow> item option \<Rightarrow> item option" where
  "after_frame dt now st entry =
     (case entry of
        None \<Rightarrow> None
      | Some it \<Rightarrow>
          if status it = ''COMPLETED'' then Some it
          else if js_gt (position_x (transit dt now st it)) (Fin 4) then None
          else Some (transit dt now st it))"

text \<open>What the transport of an item reads of the simulator.\<close>

definition gate :: "string \<times> sensor \<Rightarrow> string \<times> string \<times> string \<times> jsnum" where
  "gate = (\<lambda>(sid, s). (sid, sensor_type s, sensor_beltId s, sensor_x s))"

definition frame_view :: "simulator \<Rightarrow> jsnum \<times> (string \<times> string \<times> string \<times> jsnum) list \<times> profiles" where
  "frame_view st = (simulationSpeed st, map gate (sensors st), profiles st)"

text \<open>
  The stopped line after the first two of those frames: the item of belt B1 has passed
  the softness and the height gate.
\<close>

definition before_last_gate :: simulator where
  "before_last_gate = run (take 2 over_the_gates) stopped_line"

definition the_item :: "simulator \<Rightarrow> item" where
  "the_item st = the (map_of (items st) (5000, ''k3x9q2m1z''))"

text \<open>
  The counters of the simulator: each global counter of a verdict class is the sum of
  the counters of that class over the belts (\<open>counters_agree\<close>), and from one simulator
  to a later one no counter has decreased (\<open>grows\<close>).
\<close>

definition counters_agree :: "simulator \<Rightarrow> bool" where
  "counters_agree st \<longleftrightarrow>
     okCount (statistics st) = sum_list (map (\<lambda>(k, b). ok (counters b)) (belts st)) \<and>
     redCount (statistics st) = sum_list (map (\<lambda>(k, b). red (counters b)) (belts st)) \<and>
     greenCount (statistics st) = sum_list (map (\<lambda>(k, b). green (counters b)) (belts st)) \<and>
     yellowCount (statistics st) = sum_list (map (\<lambda>(k, b). yellow (counters b)) (belts st))"

definition stats_le :: "run_statistics \<Rightarrow> run_statistics \<Rightarrow> bool" where
  "stats_le a b \<longleftrightarrow>
     totalItems a \<le> totalItems b \<and> okCount a \<le> okCount b \<and> redCount a \<le> redCount b \<and>
     greenCount a \<le> greenCount b \<and> yellowCount a \<le> yellowCount b"

definition lane_le :: "string \<times> belt \<Rightarrow> string \<times> belt \<Rightarrow> bool" where
  "lane_le = (\<lambda>(k, b) (k', b'). k = k' \<and>
     ok (counters b) \<le> ok (counters b') \<and> red (counters b) \<le> red (counters b') \<and>
     green (counters b) \<le> green (counters b') \<and> yellow (counters b) \<le> yellow (counters b'))"

definition grows :: "simulator \<Rightarrow> simulator \<Rightarrow> bool" where
  "grows st st' \<longleftrightarrow>
     stats_le (statistics st) (statistics st') \<and> list_all2 lane_le (belts st) (belts st')"

text \<open>The statistics and the counters of the belts, in the order of the map of belts.\<close>

definition counter_view :: "simulator \<Rightarrow> run_statistics \<times> (string \<times> belt_counters) list" where
  "counter_view st = (statistics st, map (\<lambda>(k, b). (k, counters b)) (belts st))"

text \<open>From a simulator to a later one: agreement of the counters is kept, and no counter decreases.\<close>

definition keeps :: "simulator \<Rightarrow> simulator \<Rightarrow> bool" where
  "keeps st st' \<longleftrightarrow> (counters_agree st \<longrightarrow> counters_agree st') \<and> grows st st'"

section \<open>Properties of the classification\<close>

lemma js_ge_abs_pos_tol:
  "0 < t \<Longrightarrow> js_ge (js_abs (Fin a)) (Fin t) \<Longrightarrow> js_ge (Fin a) (Fin t) = (0 < a)"
  by (auto simp: js_ge_def)

lemma heightDiff_sign:
  assumes "measured_height_mm it = Fin h" and "target_height_mm p = Fin g"
    and "height_tol_mm p = Fin t" and "0 < t" and "height_fails p it"
  shows "js_ge (heightDiff p it) (height_tol_mm p) = (g < h)"
  using assms js_ge_abs_pos_tol [of t "h - g"]
  by (simp add: height_fails_def heightDiff_def js_sub_def)

text \<open>
  Claim C1. \<open>evaluateQC\<close> checks softness first, then height, then size, and the first
  failing check decides: a softness outside the range of the profile gives
  \<open>SOFT_FAIL\<close> and the yellow bin whatever the height and the diameter are; the height
  check counts only when softness passes (over gives \<open>OVER_HEIGHT\<close> and the green bin,
  under gives \<open>UNDER_HEIGHT\<close> and the red bin); the size check counts only when
  softness and height pass; when all three pass the verdict is \<open>OK\<close> with the accept bin.
  The source tells over from under by \<open>heightDiff >= height_tol_mm\<close>; for a positive
  tolerance this is the measured height lying above the target.
\<close>

theorem evaluateQC_priority:
  assumes "map_of ps (item_profile it) = Some p"
  shows "(softness_fails p it \<longrightarrow>
            qc_status (evaluateQC ps it) = ''SOFT_FAIL'' \<and>
            qc_bucket (evaluateQC ps it) = ''YELLOW_BIN'') \<and>
         (\<not> softness_fails p it \<and> height_fails p it \<and>
            js_ge (heightDiff p it) (height_tol_mm p) \<longrightarrow>
            qc_status (evaluateQC ps it) = ''OVER_HEIGHT'' \<and>
            qc_bucket (evaluateQC ps it) = ''GREEN_BIN'') \<and>
         (\<not> softness_fails p it \<and> height_fails p it \<and>
            \<not> js_ge (heightDiff p it) (height_tol_mm p) \<longrightarrow>
            qc_status (evaluateQC ps it) = ''UNDER_HEIGHT'' \<and>
            qc_bucket (evaluateQC ps it) = ''RED_BIN'') \<and>
         (\<not> softness_fails p it \<and> \<not> height_fails p it \<and> size_fails p it \<longrightarrow>
            qc_status (evaluateQC ps it) = ''SIZE_DOWN'' \<and>
            qc_bucket (evaluateQC ps it) = ''RED_BIN'') \<and>
         (\<not> softness_fails p it \<and> \<not> height_fails p it \<and> \<not> size_fails p it \<longrightarrow>
            qc_status (evaluateQC ps it) = ''OK'' \<and>
            qc_bucket (evaluateQC ps it) = ''OK_BIN'') \<and>
         (measured_height_mm it = Fin h \<and> target_height_mm p = Fin g \<and>
          height_tol_mm p = Fin t \<and> 0 < t \<and> height_fails p it \<longrightarrow>
            js_ge (heightDiff p it) (height_tol_mm p) = (g < h))"
proof -
  have order: "(softness_fails p it \<longrightarrow>
            qc_status (evaluateQC ps it) = ''SOFT_FAIL'' \<and>
            qc_bucket (evaluateQC ps it) = ''YELLOW_BIN'') \<and>
         (\<not> softness_fails p it \<and> height_fails p it \<and>
            js_ge (heightDiff p it) (height_tol_mm p) \<longrightarrow>
            qc_status (evaluateQC ps it) = ''OVER_HEIGHT'' \<and>
            qc_bucket (evaluateQC ps it) = ''GREEN_BIN'') \<and>
         (\<not> softness_fails p it \<and> height_fails p it \<and>
            \<not> js_ge (heightDiff p it) (height_tol_mm p) \<longrightarrow>
            qc_status (evaluateQC ps it) = ''UNDER_HEIGHT'' \<and>
            qc_bucket (evaluateQC ps it) = ''RED_BIN'') \<and>
         (\<not> softness_fails p it \<and> \<not> height_fails p it \<and> size_fails p it \<longrightarrow>
            qc_status (evaluateQC ps it) = ''SIZE_DOWN'' \<and>
            qc_bucket (evaluateQC ps it) = ''RED_BIN'') \<and>
         (\<not> softness_fails p it \<and> \<not> height_fails p it \<and> \<not> size_fails p it \<longrightarrow>
            qc_status (evaluateQC ps it) = ''OK'' \<and>
            qc_bucket (evaluateQC ps it) = ''OK_BIN'')"
    using assms
    by (simp add: evaluateQC_def softness_fails_def height_fails_def heightDiff_def
        size_fails_def Let_def)
  have sign: "measured_height_mm it = Fin h \<and> target_height_mm p = Fin g \<and>
          height_tol_mm p = Fin t \<and> 0 < t \<and> height_fails p it \<longrightarrow>
            js_ge (heightDiff p it) (height_tol_mm p) = (g < h)"
    using heightDiff_sign [of it h p g t] by blast
  show ?thesis using order sign by blast
qed

theorem evaluateQC_priority_witness:
  "qc_status (evaluateQC profilesData (brush64_item 30 9 80)) = ''SOFT_FAIL'' \<and>
   qc_status (evaluateQC profilesData (brush64_item 46 3 80)) = ''OVER_HEIGHT'' \<and>
   qc_status (evaluateQC profilesData (brush64_item 44 3 80)) = ''UNDER_HEIGHT'' \<and>
   qc_bucket (evaluateQC profilesData (brush64_item 45.5 3 62)) = ''RED_BIN'' \<and>
   qc_status (evaluateQC profilesData (brush64_item 45.5 3 65)) = ''OK''"
proof -
  have look: "\<And>h s d. map_of profilesData (item_profile (brush64_item h s d)) = Some brush64"
    by (simp add: profilesData_def brush64_item_def)
  show ?thesis
    using evaluateQC_priority [OF look, of 30 9 80 30 45 1]
      evaluateQC_priority [OF look, of 46 3 80 46 45 1]
      evaluateQC_priority [OF look, of 44 3 80 44 45 1]
      evaluateQC_priority [OF look, of "45.5" 3 62 "45.5" 45 1]
      evaluateQC_priority [OF look, of "45.5" 3 65 "45.5" 45 1]
    by (simp add: softness_fails_def height_fails_def heightDiff_def size_fails_def
        brush64_def brush64_item_def js_gt_def js_ge_def js_sub_def)
qed

text \<open>
  Claim C2, as the program has it. For the profile Brush-64 (diameter 64, target height
  45, tolerance 1.0, softness from 2.0 to 3.5): (a) height 45.0, softness 2.5 and
  diameter 64 give \<open>OK\<close> and the accept bin; (b) softness 1.5 gives \<open>SOFT_FAIL\<close>
  whatever the height and the diameter; (c) softness 2.5 and height 47.5 give
  \<open>OVER_HEIGHT\<close>; (d) softness 2.5, height 45.0 and diameter 70 give the verdict
  \<open>SIZE_DOWN\<close> and the red bin.
\<close>

theorem brush64_scenarios:
  "qc_status (evaluateQC profilesData (brush64_item 45.0 2.5 64)) = ''OK'' \<and>
   qc_bucket (evaluateQC profilesData (brush64_item 45.0 2.5 64)) = ''OK_BIN'' \<and>
   (\<forall>h d. qc_status (evaluateQC profilesData
             ((brush64_item 45.0 1.5 64)\<lparr>measured_height_mm := h, item_diameter_mm := d\<rparr>))
           = ''SOFT_FAIL'') \<and>
   (\<forall>d. qc_status (evaluateQC profilesData
             ((brush64_item 47.5 2.5 64)\<lparr>item_diameter_mm := d\<rparr>)) = ''OVER_HEIGHT'') \<and>
   qc_status (evaluateQC profilesData (brush64_item 45.0 2.5 70)) = ''SIZE_DOWN'' \<and>
   qc_bucket (evaluateQC profilesData (brush64_item 45.0 2.5 70)) = ''RED_BIN''"
  by (simp add: evaluateQC_def profilesData_def brush64_def brush64_item_def
      js_gt_def js_ge_def js_sub_def)

text \<open>
  The verdict of scenario (d) is the string \<open>SIZE_DOWN\<close>, not \<open>SIZE_MISMATCH\<close>.
\<close>

theorem brush64_size_verdict_counterexample:
  "qc_status (evaluateQC profilesData (brush64_item 45.0 2.5 70)) \<noteq> ''SIZE_MISMATCH''"
  by (simp add: evaluateQC_def profilesData_def brush64_def brush64_item_def
      js_gt_def js_ge_def js_sub_def)

section \<open>Profile edits\<close>

lemma constructed_profiles: "profiles (constructed t0 c d) = profilesData"
  by (simp add: constructed_def initData_def profilesData_def)

text \<open>
  Claim C3, as the program has it. \<open>saveProfileChanges\<close> validates nothing and never
  fails: when the selected name is a registered profile, the five parsed values are
  stored as they are, whatever they are (\<open>NaN\<close>, an infinity, a minimum above the
  maximum), and the other profiles stay as they were; when the name is not registered,
  nothing changes.
\<close>

theorem saveProfileChanges_commits:
  "(map_of (profiles st) n = Some p \<longrightarrow>
      map_of (profiles (saveProfileChanges n d h t lo hi st)) n =
        Some (p\<lparr>diameter_mm := d, target_height_mm := h, height_tol_mm := t,
                 softness_range_N := (lo, hi)\<rparr>)) \<and>
   (map_of (profiles st) n = None \<longrightarrow> saveProfileChanges n d h t lo hi st = st) \<and>
   (n' \<noteq> n \<longrightarrow>
      map_of (profiles (saveProfileChanges n d h t lo hi st)) n' = map_of (profiles st) n')"
  by (auto simp: saveProfileChanges_def update_conv' split: option.splits)

theorem saveProfileChanges_commits_witness:
  "map_of (profiles (saveProfileChanges ''Brush-95'' NaN (Fin 50) PInf (Fin 3) (Fin 2)
      (constructed 0 [] []))) ''Brush-95'' =
     Some \<lparr>name = ''Brush-95'', diameter_mm = NaN, target_height_mm = Fin 50,
           height_tol_mm = PInf, softness_range_N = (Fin 3, Fin 2)\<rparr> \<and>
   saveProfileChanges ''Brush-7'' NaN (Fin 50) PInf (Fin 3) (Fin 2) (constructed 0 [] []) =
     constructed 0 [] [] \<and>
   map_of (profiles (saveProfileChanges ''Brush-95'' NaN (Fin 50) PInf (Fin 3) (Fin 2)
      (constructed 0 [] []))) ''Brush-64'' = Some brush64"
  using saveProfileChanges_commits [of "constructed 0 [] []" "''Brush-95''" brush95
      NaN "Fin 50" PInf "Fin 3" "Fin 2" "''Brush-64''"]
    saveProfileChanges_commits [of "constructed 0 [] []" "''Brush-7''" brush95
      NaN "Fin 50" PInf "Fin 3" "Fin 2" "''Brush-64''"]
  by (simp add: constructed_profiles profilesData_def brush95_def)

text \<open>
  An edit of Brush-64 with softness minimum 5 above the maximum 1 is stored: the
  profile kept before the edit is not retained.
\<close>

theorem saveProfileChanges_unvalidated_counterexample:
  "\<not> js_le (Fin 5) (Fin 1) \<and>
   map_of (profiles (constructed 0 [] [])) ''Brush-64'' = Some brush64 \<and>
   map_of (profiles (saveProfileChanges ''Brush-64'' (Fin 64) (Fin 45) (Fin 1) (Fin 5) (Fin 1)
      (constructed 0 [] []))) ''Brush-64'' =
     Some (brush64\<lparr>softness_range_N := (Fin 5, Fin 1)\<rparr>) \<and>
   brush64\<lparr>softness_range_N := (Fin 5, Fin 1)\<rparr> \<noteq> brush64"
  by (simp add: saveProfileChanges_def constructed_profiles profilesData_def brush64_def)

section \<open>Simulated softness\<close>

lemma js_max_zero_not_neg: "\<not> js_lt (js_max (Fin 0) x) (Fin 0)"
  by (cases x) auto

lemma js_max_zero_ge: "js_max (Fin 0) x = NaN \<or> js_ge (js_max (Fin 0) x) (Fin 0)"
  by (cases x) (auto simp: js_ge_def)

lemma js_add_pos_not_neg:
  "\<not> js_lt x (Fin 0) \<Longrightarrow> 0 \<le> c \<Longrightarrow> \<not> js_lt (js_add x (Fin c)) (Fin 0)"
  by (cases x) auto

lemma simulateSoftness_max:
  "\<exists>x. simulateSoftness cfg softnessRange g r1 r2 = js_max (Fin 0) x"
  unfolding simulateSoftness_def Let_def by blast

lemma newItem_softness:
  "softness_N (newItem st now d bid b p) =
     (if softnessDrift (scenarios st)
      then js_add (simulateSoftness (config st) (softness_range_N p)
                     (s_gauss d) (s_rand1 d) (s_rand2 d)) (Fin 0.5)
      else simulateSoftness (config st) (softness_range_N p)
             (s_gauss d) (s_rand1 d) (s_rand2 d))"
  by (simp add: newItem_def Let_def)

section \<open>Invariants of the running simulator\<close>

lemma fold_invariant:
  assumes "P s" and "\<And>x s. P s \<Longrightarrow> P (f x s)"
  shows "P (fold f xs s)"
  using assms(1) by (induction xs arbitrary: s) (simp_all add: assms(2))

lemma run_invariant:
  assumes "P st" and "\<And>op s. P s \<Longrightarrow> P (perform op s)"
  shows "P (run ops st)"
  unfolding run_def using assms by (rule fold_invariant)

subsection \<open>The alarm log\<close>

lemma createAlarm_alarms:
  "alarms (createAlarm now it qc st) = take 20 (newAlarm now it qc # alarms st)"
  by (simp add: createAlarm_def Let_def)

lemma createAlarm_bounded: "length (alarms (createAlarm now it qc st)) \<le> 20"
  by (simp add: createAlarm_alarms)

lemma processItem_bounded:
  "length (alarms st) \<le> 20 \<Longrightarrow> length (alarms (fst (processItem now st it))) \<le> 20"
  by (simp add: processItem_def Let_def createAlarm_bounded split: option.splits prod.splits)

lemma moveItemToBin_alarms: "alarms (moveItemToBin st it) = alarms st"
  by (simp add: moveItemToBin_def split: option.splits)

lemma removeItem_alarms: "alarms (removeItem st k) = alarms st"
  by (simp add: removeItem_def Let_def split: option.splits)

lemma updateItem_bounded:
  assumes "length (alarms st) \<le> 20"
  shows "length (alarms (updateItem dt now k st)) \<le> 20"
proof (cases "map_of (items st) k")
  case None
  then show ?thesis using assms by (simp add: updateItem_def)
next
  case (Some it)
  define it1 where "it1 = it\<lparr>position_x :=
    js_add (position_x it) (js_mul (js_mul (velocity it) dt) (simulationSpeed st))\<rparr>"
  obtain ss it2 where cs: "checkSensorInteractions now (sensors st) it1 = (ss, it2)"
    by (cases "checkSensorInteractions now (sensors st) it1")
  obtain st2 it3 where pi: "processItem now (st\<lparr>sensors := ss\<rparr>) it2 = (st2, it3)"
    by (cases "processItem now (st\<lparr>sensors := ss\<rparr>) it2")
  have "length (alarms st2) \<le> 20"
    using processItem_bounded [of "st\<lparr>sensors := ss\<rparr>" now it2] assms pi by simp
  then show ?thesis
    using Some cs pi assms
    by (simp add: updateItem_def routeItem_def Let_def it1_def [symmetric]
        moveItemToBin_alarms removeItem_alarms)
qed

lemma updateItems_bounded:
  "length (alarms st) \<le> 20 \<Longrightarrow> length (alarms (updateItems dt now st)) \<le> 20"
  unfolding updateItems_def
  by (rule fold_invariant) (simp_all add: updateItem_bounded)

lemma createBrushItem_alarms: "alarms (createBrushItem st now d bid p) = alarms st"
  by (simp add: createBrushItem_def Let_def split: option.splits)

lemma spawnOnBelt_alarms: "alarms (spawnOnBelt now ds bid st) = alarms st"
  by (simp add: spawnOnBelt_def Let_def createBrushItem_alarms split: option.splits)

lemma spawnItems_alarms: "alarms (spawnItems now ds st) = alarms st"
  unfolding spawnItems_def
  by (rule fold_invariant [where P = "\<lambda>s. alarms s = alarms st"])
    (simp_all add: spawnOnBelt_alarms)

lemma animate_bounded:
  "length (alarms st) \<le> 20 \<Longrightarrow> length (alarms (animate now ds st)) \<le> 20"
  by (simp add: animate_def Let_def updateItems_bounded spawnItems_alarms)

lemma toggleBelt_alarms: "alarms (toggleBelt bid st) = alarms st"
  by (simp add: toggleBelt_def split: option.splits)

lemma stopBelt_alarms: "alarms (stopBelt bid st) = alarms st"
  by (simp add: stopBelt_def toggleBelt_alarms split: option.splits)

lemma restartBelt_alarms: "alarms (restartBelt bid st) = alarms st"
  by (simp add: restartBelt_def Let_def toggleBelt_alarms split: option.splits)

lemma toggleEmergencyStop_alarms: "alarms (toggleEmergencyStop st) = alarms st"
proof -
  have a: "alarms (fold stopBelt xs s) = alarms s" for xs s
    by (induction xs arbitrary: s) (simp_all add: stopBelt_alarms)
  have b: "alarms (fold restartBelt xs s) = alarms s" for xs s
    by (induction xs arbitrary: s) (simp_all add: restartBelt_alarms)
  show ?thesis by (simp add: toggleEmergencyStop_def Let_def a b)
qed

lemma toggleScenario_alarms: "alarms (toggleScenario n st) = alarms st"
  by (cases n) simp_all

lemma perform_bounded:
  "length (alarms st) \<le> 20 \<Longrightarrow> length (alarms (perform op st)) \<le> 20"
  by (cases op)
    (simp_all add: animate_bounded finishDisposition_def toggleBelt_alarms setBeltSpeed_def
      setBeltProfile_def toggleEmergencyStop_alarms togglePause_def resetScenarios_def
      clearAlarms_def saveProfileChanges_def saveSensorSettings_def resetConfiguration_def
      initData_def toggleScenario_alarms split: option.splits)

lemma constructed_alarms: "alarms (constructed t0 c d) = []"
  by (simp add: constructed_def initData_def)

text \<open>
  Claim C6. The alarm log never holds more than 20 entries, whatever operations are
  performed on the simulator. \<open>createAlarm\<close> puts the new alarm at the front, so the
  log reads newest first, and when the log is full the entry dropped is the last one,
  the oldest.
\<close>

theorem alarm_log_bounded:
  "length (alarms (run ops (constructed t0 controls displays))) \<le> 20 \<and>
   (length (alarms st) \<le> 20 \<longrightarrow> length (alarms (run ops st)) \<le> 20) \<and>
   alarms (createAlarm now it qc st) = take 20 (newAlarm now it qc # alarms st) \<and>
   hd (alarms (createAlarm now it qc st)) = newAlarm now it qc \<and>
   (length (alarms st) < 20 \<longrightarrow>
      alarms (createAlarm now it qc st) = newAlarm now it qc # alarms st) \<and>
   (length (alarms st) = 20 \<longrightarrow>
      alarms (createAlarm now it qc st) = newAlarm now it qc # butlast (alarms st))"
proof -
  have inv: "length (alarms s) \<le> 20 \<Longrightarrow> length (alarms (run ops s)) \<le> 20" for s
    by (rule run_invariant [where P = "\<lambda>s. length (alarms s) \<le> 20"])
      (simp_all add: perform_bounded)
  have full: "take 19 xs = butlast xs" if "length xs = 20" for xs :: "alarm list"
    using that by (simp add: butlast_conv_take)
  show ?thesis
    using inv [of "constructed t0 controls displays"] inv [of st]
    by (simp add: createAlarm_alarms constructed_alarms full)
qed

theorem alarm_log_bounded_witness:
  "length (alarms full_log) = 20 \<and>
   length (alarms (run [ClearAlarms, ToggleBelt ''B1''] full_log)) \<le> 20 \<and>
   alarms (createAlarm 21 (brush64_item 45 1.5 64) soft_fail_result full_log) =
     newAlarm 21 (brush64_item 45 1.5 64) soft_fail_result # butlast (alarms full_log) \<and>
   length (alarms (createAlarm 21 (brush64_item 45 1.5 64) soft_fail_result full_log)) = 20 \<and>
   alarms (createAlarm 21 (brush64_item 45 1.5 64) soft_fail_result (clearAlarms full_log)) =
     [newAlarm 21 (brush64_item 45 1.5 64) soft_fail_result]"
proof -
  have len: "length (alarms full_log) = 20"
    by (simp add: full_log_def)
  have empty: "alarms (clearAlarms full_log) = []"
    by (simp add: clearAlarms_def)
  have bl: "take 19 (alarms full_log) = butlast (alarms full_log)"
    using len by (simp add: butlast_conv_take)
  show ?thesis
    using len empty bl
      alarm_log_bounded [of "[ClearAlarms, ToggleBelt ''B1'']" 0 "[]" "[]" full_log 21
        "brush64_item 45 1.5 64" soft_fail_result]
      alarm_log_bounded [of "[]" 0 "[]" "[]" "clearAlarms full_log" 21
        "brush64_item 45 1.5 64" soft_fail_result]
    by simp
qed

subsection \<open>Sensor readings\<close>

lemma distinct_map_count:
  "distinct (map f xs) \<longleftrightarrow> (\<forall>y. length (filter (\<lambda>x. f x = y) xs) \<le> 1)"
proof (induction xs)
  case Nil
  then show ?case by simp
next
  case (Cons a xs)
  have "f a \<notin> f ` set xs \<longleftrightarrow> filter (\<lambda>x. f x = f a) xs = []"
    by (force simp: filter_empty_conv image_iff)
  then show ?case using Cons by (auto simp: le_Suc_eq)
qed

lemma set_update_cases:
  "kv \<in> set (AList.update k v xs) \<Longrightarrow> kv = (k, v) \<or> kv \<in> set xs"
  by (induction xs) (auto split: if_splits)

lemma set_delete_subset: "kv \<in> set (AList.delete k xs) \<Longrightarrow> kv \<in> set xs"
  by (simp add: AList.delete_eq)

lemma set_map_entry_cases:
  "kv \<in> set (AList.map_entry k f xs) \<Longrightarrow> kv \<in> set xs \<or> (\<exists>v. (k, v) \<in> set xs \<and> kv = (k, f v))"
  by (induction xs) (auto split: if_splits)

lemma checkSensor_once: "once it \<Longrightarrow> once (snd (checkSensor now sid s it))"
  by (auto simp: checkSensor_def once_def Let_def find_None_iff split: option.splits)

lemma checkSensorInteractions_once:
  "once it \<Longrightarrow> once (snd (checkSensorInteractions now ss it))"
proof (induction ss arbitrary: it)
  case Nil
  then show ?case by simp
next
  case (Cons a ss)
  obtain sid s where a: "a = (sid, s)" by (cases a)
  obtain s' it' where c: "checkSensor now sid s it = (s', it')"
    by (cases "checkSensor now sid s it")
  obtain r' it'' where r: "checkSensorInteractions now ss it' = (r', it'')"
    by (cases "checkSensorInteractions now ss it'")
  have "once it'" using checkSensor_once [OF Cons.prems, of now sid s] c by simp
  then have "once it''" using Cons.IH [of it'] r by simp
  then show ?case by (simp add: a c r)
qed

lemma processItem_readings:
  "sensorReadings (snd (processItem now st it)) = sensorReadings it"
  by (simp add: processItem_def Let_def split: option.splits prod.splits)

lemma processItem_items: "items (fst (processItem now st it)) = items st"
  by (simp add: processItem_def Let_def createAlarm_def split: option.splits prod.splits)

lemma moveItemToBin_items: "items (moveItemToBin st it) = items st"
  by (simp add: moveItemToBin_def split: option.splits)

lemma removeItem_all_once: "all_once st \<Longrightarrow> all_once (removeItem st k)"
  by (auto simp: removeItem_def all_once_def Let_def dest: set_delete_subset split: option.splits)

lemma updateItem_all_once:
  assumes "all_once st"
  shows "all_once (updateItem dt now k st)"
proof (cases "map_of (items st) k")
  case None
  then show ?thesis using assms by (simp add: updateItem_def)
next
  case (Some it)
  define it1 where "it1 = it\<lparr>position_x :=
    js_add (position_x it) (js_mul (js_mul (velocity it) dt) (simulationSpeed st))\<rparr>"
  obtain ss it2 where cs: "checkSensorInteractions now (sensors st) it1 = (ss, it2)"
    by (cases "checkSensorInteractions now (sensors st) it1")
  obtain st2 it3 where pi: "processItem now (st\<lparr>sensors := ss\<rparr>) it2 = (st2, it3)"
    by (cases "processItem now (st\<lparr>sensors := ss\<rparr>) it2")
  have "(k, it) \<in> set (items st)" using Some by (rule map_of_SomeD)
  then have "once it" using assms by (auto simp: all_once_def)
  then have "once it1" by (simp add: once_def it1_def)
  then have "once it2" using checkSensorInteractions_once [of it1 now "sensors st"] cs by simp
  then have o3: "once it3" using processItem_readings [of now "st\<lparr>sensors := ss\<rparr>" it2] pi
    by (simp add: once_def)
  have i2: "items st2 = items st" using processItem_items [of now "st\<lparr>sensors := ss\<rparr>" it2] pi
    by simp
  define st3 where "st3 = st2\<lparr>items := AList.update k it3 (items st2)\<rparr>"
  have a3: "all_once st3"
    using assms o3 i2 by (auto simp: st3_def all_once_def dest!: set_update_cases)
  then have a4: "all_once (moveItemToBin st3 it3)"
    by (simp add: all_once_def moveItemToBin_items)
  show ?thesis
    using Some cs pi a3 a4 removeItem_all_once assms
    by (simp add: updateItem_def routeItem_def Let_def it1_def [symmetric]
        st3_def [symmetric])
qed

lemma updateItems_all_once: "all_once st \<Longrightarrow> all_once (updateItems dt now st)"
  unfolding updateItems_def
  by (rule fold_invariant) (simp_all add: updateItem_all_once)

lemma newItem_once: "once (newItem st now d bid b p)"
  by (simp add: newItem_def once_def Let_def)

lemma createBrushItem_all_once: "all_once st \<Longrightarrow> all_once (createBrushItem st now d bid p)"
  using newItem_once
  by (auto simp: createBrushItem_def all_once_def Let_def dest!: set_update_cases split: option.splits)

lemma spawnOnBelt_all_once: "all_once st \<Longrightarrow> all_once (spawnOnBelt now ds bid st)"
  using createBrushItem_all_once [of st now "ds bid" bid]
  by (auto simp: spawnOnBelt_def Let_def all_once_def split: option.splits)

lemma spawnItems_all_once: "all_once st \<Longrightarrow> all_once (spawnItems now ds st)"
  unfolding spawnItems_def
  by (rule fold_invariant) (simp_all add: spawnOnBelt_all_once)

lemma animate_all_once: "all_once st \<Longrightarrow> all_once (animate now ds st)"
proof -
  assume a: "all_once st"
  then have "all_once (st\<lparr>lastTime := now\<rparr>)" by (simp add: all_once_def)
  then show ?thesis
    using a by (simp add: animate_def Let_def updateItems_all_once spawnItems_all_once)
qed

lemma toggleBelt_items: "items (toggleBelt bid st) = items st"
  by (simp add: toggleBelt_def split: option.splits)

lemma stopBelt_items: "items (stopBelt bid st) = items st"
  by (simp add: stopBelt_def toggleBelt_items split: option.splits)

lemma restartBelt_items: "items (restartBelt bid st) = items st"
  by (simp add: restartBelt_def Let_def toggleBelt_items split: option.splits)

lemma toggleEmergencyStop_items: "items (toggleEmergencyStop st) = items st"
proof -
  have a: "items (fold stopBelt xs s) = items s" for xs s
    by (induction xs arbitrary: s) (simp_all add: stopBelt_items)
  have b: "items (fold restartBelt xs s) = items s" for xs s
    by (induction xs arbitrary: s) (simp_all add: restartBelt_items)
  show ?thesis by (simp add: toggleEmergencyStop_def Let_def a b)
qed

lemma toggleScenario_items: "items (toggleScenario n st) = items st"
  by (cases n) simp_all

lemma finishDisposition_all_once: "all_once st \<Longrightarrow> all_once (finishDisposition k st)"
  by (auto simp: finishDisposition_def all_once_def once_def dest!: set_map_entry_cases)

lemma setBeltSpeed_all_once: "all_once st \<Longrightarrow> all_once (setBeltSpeed bid v st)"
  by (auto simp: setBeltSpeed_def all_once_def once_def split: option.splits if_splits)

lemma perform_all_once: "all_once st \<Longrightarrow> all_once (perform op st)"
proof (cases op)
  case (Frame now ds)
  assume "all_once st"
  then show ?thesis using Frame by (simp add: animate_all_once)
next
  case (FinishDisposition k)
  assume "all_once st"
  then show ?thesis using FinishDisposition by (simp add: finishDisposition_all_once)
next
  case (SetBeltSpeed bid v)
  assume "all_once st"
  then show ?thesis using SetBeltSpeed by (simp add: setBeltSpeed_all_once)
qed (simp_all add: all_once_def toggleBelt_items setBeltProfile_def
      toggleEmergencyStop_items togglePause_def toggleScenario_items resetScenarios_def
      clearAlarms_def saveProfileChanges_def saveSensorSettings_def resetConfiguration_def
      initData_def split: option.splits)


lemma all_once_count:
  "all_once st \<longleftrightarrow>
     (\<forall>(k, it) \<in> set (items st).
        \<forall>sid. length (filter (\<lambda>r. sensorId r = sid) (sensorReadings it)) \<le> 1)"
  by (simp add: all_once_def once_def distinct_map_count)

lemma constructed_items: "items (constructed t0 c d) = []"
  by (simp add: constructed_def initData_def)

text \<open>
  Claim C5. At all times, every item holds at most one reading for each sensor id:
  this is true of the simulator as constructed and stays true under every operation,
  however many consecutive frames leave an item within the tolerance of a sensor.
\<close>

theorem sensor_reading_once:
  "(\<forall>(k, it) \<in> set (items (run ops (constructed t0 controls displays))).
      \<forall>sid. length (filter (\<lambda>r. sensorId r = sid) (sensorReadings it)) \<le> 1) \<and>
   ((\<forall>(k, it) \<in> set (items st).
       \<forall>sid. length (filter (\<lambda>r. sensorId r = sid) (sensorReadings it)) \<le> 1) \<longrightarrow>
    (\<forall>(k, it) \<in> set (items (run ops st)).
       \<forall>sid. length (filter (\<lambda>r. sensorId r = sid) (sensorReadings it)) \<le> 1))"
proof -
  have inv: "all_once s \<Longrightarrow> all_once (run ops s)" for s
    by (rule run_invariant [where P = all_once]) (simp_all add: perform_all_once)
  have "all_once (constructed t0 controls displays)"
    by (simp add: all_once_def constructed_items)
  then show ?thesis
    using inv [of "constructed t0 controls displays"] inv [of st]
    unfolding all_once_count by blast
qed

theorem sensor_reading_once_witness:
  "position_x (the (map_of (items (run to_the_gate fresh_line)) (5000, ''k3x9q2m1z''))) = Fin 0 \<and>
   position_x (the (map_of (items (run at_the_gate fresh_line)) (5000, ''k3x9q2m1z''))) = Fin 0.03 \<and>
   map sensorId (sensorReadings
     (the (map_of (items (run at_the_gate fresh_line)) (5000, ''k3x9q2m1z'')))) = [''S_SOFT_1''] \<and>
   (\<forall>sid. length (filter (\<lambda>r. sensorId r = sid) (sensorReadings
     (the (map_of (items (run at_the_gate fresh_line)) (5000, ''k3x9q2m1z''))))) \<le> 1)"
proof -
  have p1: "position_x (the (map_of (items (run to_the_gate fresh_line))
      (5000, ''k3x9q2m1z''))) = Fin 0"
    by code_simp
  have p2: "position_x (the (map_of (items (run at_the_gate fresh_line))
      (5000, ''k3x9q2m1z''))) = Fin 0.03"
    by code_simp
  have r: "map sensorId (sensorReadings
      (the (map_of (items (run at_the_gate fresh_line)) (5000, ''k3x9q2m1z'')))) = [''S_SOFT_1'']"
    by code_simp
  have "map_of (items (run at_the_gate fresh_line)) (5000, ''k3x9q2m1z'') \<noteq> None"
    by code_simp
  then obtain it where it: "map_of (items (run at_the_gate fresh_line)) (5000, ''k3x9q2m1z'') = Some it"
    by blast
  then have "((5000, ''k3x9q2m1z''), it) \<in> set (items (run at_the_gate fresh_line))"
    by (rule map_of_SomeD)
  then have "\<forall>sid. length (filter (\<lambda>r. sensorId r = sid) (sensorReadings it)) \<le> 1"
    using sensor_reading_once [of at_the_gate 0 "[''B1'', ''B2'', ''B3'']" "[''B1'', ''B2'', ''B3'']"]
    unfolding fresh_line_def by blast
  then show ?thesis using p1 p2 r it by simp
qed

section \<open>Spawning\<close>

lemma spawnOnBelt_disabled:
  "map_of (belts st) bid = Some b \<Longrightarrow> \<not> enabled b \<Longrightarrow> spawnOnBelt now ds bid st = st"
  by (simp add: spawnOnBelt_def)

lemma newItem_beltId: "beltId (newItem st now d bid b p) = bid"
  by (simp add: newItem_def Let_def)

lemma newItem_id: "item_id (newItem st now d bid b p) = (now, id_rand d)"
  by (simp add: newItem_def Let_def)

lemma createBrushItem_items:
  "items (createBrushItem st now d bid p) =
     (case map_of (belts st) bid of
        None \<Rightarrow> items st
      | Some b \<Rightarrow> if enabled b
                  then AList.update (now, id_rand d) (newItem st now d bid b p) (items st)
                  else items st)"
  by (simp add: createBrushItem_def Let_def newItem_id split: option.splits)

lemma createBrushItem_other_belt:
  "bid' \<noteq> bid \<Longrightarrow> map_of (belts (createBrushItem st now d bid p)) bid' = map_of (belts st) bid'"
  by (simp add: createBrushItem_def Let_def update_conv' split: option.splits)

lemma map_of_map_entry_other:
  "k' \<noteq> k \<Longrightarrow> map_of (AList.map_entry k f xs) k' = map_of xs k'"
  by (induction xs) auto

lemma spawnOnBelt_other_belt:
  "bid' \<noteq> bid \<Longrightarrow> map_of (belts (spawnOnBelt now ds bid st)) bid' = map_of (belts st) bid'"
  by (simp add: spawnOnBelt_def Let_def createBrushItem_other_belt map_of_map_entry_other
      split: option.splits)

lemma spawnOnBelt_items_cases:
  "kv \<in> set (items (spawnOnBelt now ds bid st)) \<Longrightarrow> kv \<in> set (items st) \<or> beltId (snd kv) = bid"
  by (auto simp: spawnOnBelt_def Let_def createBrushItem_items newItem_beltId
      dest!: set_update_cases split: option.splits if_splits)

lemma spawnItems_disabled_lane:
  assumes "map_of (belts st) bid = Some b" and "\<not> enabled b"
  shows "\<forall>(k, it) \<in> set (items (spawnItems now ds st)). beltId it = bid \<longrightarrow> (k, it) \<in> set (items st)"
proof -
  define P where "P s \<longleftrightarrow> map_of (belts s) bid = Some b \<and>
      (\<forall>(k, it) \<in> set (items s). beltId it = bid \<longrightarrow> (k, it) \<in> set (items st))"
    for s :: simulator
  have step: "P (spawnOnBelt now ds k s)" if "P s" for k s
  proof (cases "k = bid")
    case True
    then show ?thesis using that assms(2) by (simp add: P_def spawnOnBelt_disabled)
  next
    case False
    then have "map_of (belts (spawnOnBelt now ds k s)) bid = Some b"
      using that by (simp add: P_def spawnOnBelt_other_belt)
    moreover have "(k', it) \<in> set (items st)"
      if "(k', it) \<in> set (items (spawnOnBelt now ds k s))" and "beltId it = bid" for k' it
      using spawnOnBelt_items_cases [OF that(1)] that(2) False \<open>P s\<close> by (auto simp: P_def)
    ultimately show ?thesis by (auto simp: P_def)
  qed
  have "P st" using assms(1) by (auto simp: P_def)
  then have "P (spawnItems now ds st)"
    unfolding spawnItems_def by (rule fold_invariant) (rule step)
  then show ?thesis by (simp add: P_def)
qed

lemma toggleBelt_lookup:
  "map_of (belts st) bid = Some b \<Longrightarrow> bid \<in> set (belt_controls st) \<Longrightarrow>
     map_of (belts (toggleBelt bid st)) bid = Some (b\<lparr>enabled := \<not> enabled b\<rparr>)"
  by (simp add: toggleBelt_def update_conv')

lemma spawnOnBelt_due:
  assumes "map_of (belts st) bid = Some b" and "enabled b" and "\<not> emergencyStop st"
    and "map_of (profiles st) (belt_profile b) = Some p"
  shows "items (spawnOnBelt now ds bid st) =
     (if js_gt (Fin (of_int (now - lastSpawn b))) (spawnInterval b)
      then AList.update (now, id_rand (ds bid)) (newItem st now (ds bid) bid b p) (items st)
      else items st)"
  using assms by (simp add: spawnOnBelt_def Let_def createBrushItem_items)

text \<open>
  Claim C4, as the program has it. A spawn attempt on a disabled lane changes nothing,
  so \<open>spawnItems\<close> creates no item on a lane that is disabled. Toggling a lane only
  flips its enabled flag: \<open>lastSpawn\<close> is left as it was. On an enabled lane a spawn
  attempt at time \<open>now\<close> creates an item exactly when more than the spawn interval has
  passed since \<open>lastSpawn\<close>, the time of the last spawn of the lane, however recently
  the lane was enabled.
\<close>

theorem spawn_cadence:
  "(map_of (belts st) bid = Some b \<and> \<not> enabled b \<longrightarrow>
      spawnOnBelt now ds bid st = st \<and>
      (\<forall>(k, it) \<in> set (items (spawnItems now ds st)).
         beltId it = bid \<longrightarrow> (k, it) \<in> set (items st))) \<and>
   (map_of (belts st) bid = Some b \<and> bid \<in> set (belt_controls st) \<longrightarrow>
      map_of (belts (toggleBelt bid st)) bid = Some (b\<lparr>enabled := \<not> enabled b\<rparr>)) \<and>
   (map_of (belts st) bid = Some b \<and> enabled b \<and> \<not> emergencyStop st \<and>
    map_of (profiles st) (belt_profile b) = Some p \<longrightarrow>
      items (spawnOnBelt now ds bid st) =
        (if js_gt (Fin (of_int (now - lastSpawn b))) (spawnInterval b)
         then AList.update (now, id_rand (ds bid)) (newItem st now (ds bid) bid b p) (items st)
         else items st))"
  using spawnOnBelt_disabled [of st bid b now ds] spawnItems_disabled_lane [of st bid b now ds]
    toggleBelt_lookup [of st bid b] spawnOnBelt_due [of st bid b p now ds]
  by blast

theorem spawn_cadence_witness:
  "spawnOnBelt 100000 (\<lambda>_. nominal_draws) ''B1'' paused_line = paused_line \<and>
   map_option lastSpawn (map_of (belts paused_line) ''B1'') = Some 5000 \<and>
   map_option lastSpawn (map_of (belts restarted_line) ''B1'') = Some 5000 \<and>
   map_option enabled (map_of (belts restarted_line) ''B1'') = Some True \<and>
   items (spawnOnBelt 100016 (\<lambda>_. nominal_draws) ''B1'' restarted_line) =
     AList.update (100016, ''k3x9q2m1z'')
       (newItem restarted_line 100016 nominal_draws ''B1''
          (the (map_of (belts restarted_line) ''B1'')) brush64) (items restarted_line)"
proof -
  define b where "b = the (map_of (belts paused_line) ''B1'')"
  define b' where "b' = the (map_of (belts restarted_line) ''B1'')"
  have lk: "map_of (belts paused_line) ''B1'' = Some b"
    unfolding b_def by code_simp
  have off: "\<not> enabled b"
    unfolding b_def by code_simp
  have ctl: "''B1'' \<in> set (belt_controls paused_line)"
    by code_simp
  have ls: "lastSpawn b = 5000"
    unfolding b_def by code_simp
  have lk': "map_of (belts restarted_line) ''B1'' = Some b'"
    unfolding b'_def by code_simp
  have on: "enabled b'"
    unfolding b'_def by code_simp
  have go: "\<not> emergencyStop restarted_line"
    by code_simp
  have pr: "map_of (profiles restarted_line) (belt_profile b') = Some brush64"
    unfolding b'_def by code_simp
  have due: "js_gt (Fin (of_int (100016 - lastSpawn b'))) (spawnInterval b')"
    unfolding b'_def by code_simp
  have idr: "id_rand nominal_draws = ''k3x9q2m1z''"
    by (simp add: nominal_draws_def)
  have same: "b' = b\<lparr>enabled := \<not> enabled b\<rparr>"
    using spawn_cadence [of paused_line "''B1''" b] lk ctl lk'
    by (simp add: restarted_line_def)
  show ?thesis
    using spawn_cadence [of paused_line "''B1''" b 100000 "\<lambda>_. nominal_draws"]
      spawn_cadence [of restarted_line "''B1''" b' 100016 "\<lambda>_. nominal_draws" brush64]
      lk off lk' on go pr due idr same ls
    by (simp add: b'_def [symmetric])
qed

text \<open>
  Belt B1 last spawned at 5 seconds and is disabled during the frame at 100 seconds. It
  is enabled again after that frame, and the frame at 100.016 seconds, at most 16 ms
  after the lane was enabled, creates an item on it, although the spawn interval of
  the lane is 3333 ms.
\<close>

theorem spawn_after_restart_counterexample:
  "map_option enabled (map_of (belts paused_line) ''B1'') = Some False \<and>
   lastTime paused_line = 100000 \<and>
   items paused_line = [] \<and>
   map_option spawnInterval (map_of (belts paused_line) ''B1'') = Some (Fin (10000 / 3)) \<and>
   map (\<lambda>(k, it). (k, beltId it))
     (items (run [ToggleBelt ''B1'', Frame 100016 (\<lambda>_. nominal_draws)] paused_line)) =
     [((100016, ''k3x9q2m1z''), ''B1'')]"
  by code_simp

section \<open>Emergency stop and transport\<close>

lemma spawnOnBelt_stopped: "emergencyStop st \<Longrightarrow> spawnOnBelt now ds bid st = st"
  by (simp add: spawnOnBelt_def split: option.splits)

lemma spawnItems_stopped: "emergencyStop st \<Longrightarrow> spawnItems now ds st = st"
proof -
  assume e: "emergencyStop st"
  have "fold (spawnOnBelt now ds) ks st = st" for ks
    by (induction ks) (simp_all add: spawnOnBelt_stopped e)
  then show ?thesis by (simp add: spawnItems_def)
qed

lemma estop_sensors_comm:
  "st\<lparr>emergencyStop := e, sensors := ss\<rparr> = st\<lparr>sensors := ss, emergencyStop := e\<rparr>"
  by simp

lemma estop_items_comm:
  "st\<lparr>emergencyStop := e, items := xs\<rparr> = st\<lparr>items := xs, emergencyStop := e\<rparr>"
  by simp

lemma processItem_estop:
  "processItem now (st\<lparr>emergencyStop := e\<rparr>) it =
     ((fst (processItem now st it))\<lparr>emergencyStop := e\<rparr>, snd (processItem now st it))"
  by (simp add: processItem_def Let_def createAlarm_def split: option.splits prod.splits)

lemma moveItemToBin_estop:
  "moveItemToBin (st\<lparr>emergencyStop := e\<rparr>) it = (moveItemToBin st it)\<lparr>emergencyStop := e\<rparr>"
  by (simp add: moveItemToBin_def split: option.splits)

lemma removeItem_estop:
  "removeItem (st\<lparr>emergencyStop := e\<rparr>) k = (removeItem st k)\<lparr>emergencyStop := e\<rparr>"
  by (simp add: removeItem_def Let_def split: option.splits)

lemma routeItem_estop:
  "routeItem k it (st\<lparr>emergencyStop := e\<rparr>) = (routeItem k it st)\<lparr>emergencyStop := e\<rparr>"
  by (simp add: routeItem_def Let_def moveItemToBin_estop removeItem_estop)

lemma updateItem_estop:
  "updateItem dt now k (st\<lparr>emergencyStop := e\<rparr>) = (updateItem dt now k st)\<lparr>emergencyStop := e\<rparr>"
proof (cases "map_of (items st) k")
  case None
  then show ?thesis by (simp add: updateItem_def)
next
  case (Some it)
  define it1 where "it1 = it\<lparr>position_x :=
    js_add (position_x it) (js_mul (js_mul (velocity it) dt) (simulationSpeed st))\<rparr>"
  obtain ss it2 where cs: "checkSensorInteractions now (sensors st) it1 = (ss, it2)"
    by (cases "checkSensorInteractions now (sensors st) it1")
  obtain st2 it3 where pi: "processItem now (st\<lparr>sensors := ss\<rparr>) it2 = (st2, it3)"
    by (cases "processItem now (st\<lparr>sensors := ss\<rparr>) it2")
  have pe: "processItem now (st\<lparr>emergencyStop := e, sensors := ss\<rparr>) it2 = (st2\<lparr>emergencyStop := e\<rparr>, it3)"
    unfolding estop_sensors_comm
    using processItem_estop [where st = "st\<lparr>sensors := ss\<rparr>" and e = e and it = it2 and now = now] pi
    by simp
  have l: "updateItem dt now k (st\<lparr>emergencyStop := e\<rparr>) =
      (if status it = ''COMPLETED'' then st\<lparr>emergencyStop := e\<rparr>
       else if \<not> running st2 then st2\<lparr>emergencyStop := e, items := AList.update k it3 (items st2)\<rparr>
       else routeItem k it3 (st2\<lparr>emergencyStop := e, items := AList.update k it3 (items st2)\<rparr>))"
    using Some cs pe by (simp add: updateItem_def Let_def it1_def [symmetric])
  have r: "updateItem dt now k st =
      (if status it = ''COMPLETED'' then st
       else if \<not> running st2 then st2\<lparr>items := AList.update k it3 (items st2)\<rparr>
       else routeItem k it3 (st2\<lparr>items := AList.update k it3 (items st2)\<rparr>))"
    using Some cs pi by (simp add: updateItem_def Let_def it1_def [symmetric])
  show ?thesis
    unfolding l r estop_items_comm by (simp add: routeItem_estop)
qed

lemma updateItems_estop:
  "updateItems dt now (st\<lparr>emergencyStop := e\<rparr>) = (updateItems dt now st)\<lparr>emergencyStop := e\<rparr>"
proof -
  have "fold (\<lambda>k s. if running s then updateItem dt now k s else s) ks (s\<lparr>emergencyStop := e\<rparr>) =
        (fold (\<lambda>k s. if running s then updateItem dt now k s else s) ks s)\<lparr>emergencyStop := e\<rparr>" for ks s
    by (induction ks arbitrary: s) (simp_all add: updateItem_estop)
  then show ?thesis by (simp add: updateItems_def)
qed

lemma animate_stopped:
  "emergencyStop st \<Longrightarrow> running st \<Longrightarrow> \<not> isPaused st \<Longrightarrow>
     animate now ds st =
       updateItems (Fin (of_int (now - lastTime st) / 1000)) now (st\<lparr>lastTime := now\<rparr>)"
  by (simp add: animate_def Let_def spawnItems_stopped)

section \<open>Emergency stop and the belts\<close>

lemma map_of_map_entry_same:
  "map_of (AList.map_entry k f xs) k = map_option f (map_of xs k)"
  by (induction xs) auto

lemma toggleBelt_lookup_any:
  "map_of (belts (toggleBelt k s)) bid =
     (if bid = k \<and> k \<in> set (belt_controls s)
      then map_option (\<lambda>b. b\<lparr>enabled := \<not> enabled b\<rparr>) (map_of (belts s) k)
      else map_of (belts s) bid)"
  by (auto simp: toggleBelt_def update_conv' split: option.splits)

lemma toggleBelt_controls: "belt_controls (toggleBelt k s) = belt_controls s"
  by (simp add: toggleBelt_def split: option.splits)

lemma toggleBelt_estop: "emergencyStop (toggleBelt k s) = emergencyStop s"
  by (simp add: toggleBelt_def split: option.splits)

lemma stopBelt_lookup:
  "map_of (belts (stopBelt k s)) bid =
     (if bid = k then map_option (stopped (k \<in> set (belt_controls s))) (map_of (belts s) k)
      else map_of (belts s) bid)"
  by (auto simp: stopBelt_def stopped_def toggleBelt_lookup_any update_conv' split: option.splits)

lemma stopBelt_controls: "belt_controls (stopBelt k s) = belt_controls s"
  by (simp add: stopBelt_def toggleBelt_controls split: option.splits)

lemma stopBelt_estop: "emergencyStop (stopBelt k s) = emergencyStop s"
  by (simp add: stopBelt_def toggleBelt_estop split: option.splits)

lemma restartBelt_lookup:
  "map_of (belts (restartBelt k s)) bid =
     (if bid = k then map_option (restarted (k \<in> set (belt_controls s))) (map_of (belts s) k)
      else map_of (belts s) bid)"
  by (auto simp: restartBelt_def restarted_def Let_def toggleBelt_lookup_any
      map_of_map_entry_same map_of_map_entry_other split: option.splits)

lemma restartBelt_controls: "belt_controls (restartBelt k s) = belt_controls s"
  by (simp add: restartBelt_def Let_def toggleBelt_controls split: option.splits)

lemma restartBelt_estop: "emergencyStop (restartBelt k s) = emergencyStop s"
  by (simp add: restartBelt_def Let_def toggleBelt_estop split: option.splits)

lemma stopped_idem: "stopped c (stopped c b) = stopped c b"
  by (simp add: stopped_def)

lemma restarted_idem: "restarted c (restarted c b) = restarted c b"
  by (simp add: restarted_def)

lemma fold_stopBelt_controls: "belt_controls (fold stopBelt ks s) = belt_controls s"
  by (induction ks arbitrary: s) (simp_all add: stopBelt_controls)

lemma fold_restartBelt_controls: "belt_controls (fold restartBelt ks s) = belt_controls s"
  by (induction ks arbitrary: s) (simp_all add: restartBelt_controls)

lemma fold_stopBelt_estop: "emergencyStop (fold stopBelt ks s) = emergencyStop s"
  by (induction ks arbitrary: s) (simp_all add: stopBelt_estop)

lemma fold_restartBelt_estop: "emergencyStop (fold restartBelt ks s) = emergencyStop s"
  by (induction ks arbitrary: s) (simp_all add: restartBelt_estop)

lemma fold_stopBelt_lookup:
  "map_of (belts (fold stopBelt ks s)) bid =
     (if bid \<in> set ks then map_option (stopped (bid \<in> set (belt_controls s))) (map_of (belts s) bid)
      else map_of (belts s) bid)"
proof (induction ks arbitrary: s)
  case Nil
  then show ?case by simp
next
  case (Cons k ks)
  show ?case
    by (simp add: Cons.IH stopBelt_lookup stopBelt_controls option.map_comp comp_def stopped_idem)
qed

lemma fold_restartBelt_lookup:
  "map_of (belts (fold restartBelt ks s)) bid =
     (if bid \<in> set ks then map_option (restarted (bid \<in> set (belt_controls s))) (map_of (belts s) bid)
      else map_of (belts s) bid)"
proof (induction ks arbitrary: s)
  case Nil
  then show ?case by simp
next
  case (Cons k ks)
  show ?case
    by (simp add: Cons.IH restartBelt_lookup restartBelt_controls option.map_comp comp_def
        restarted_idem)
qed

lemma lookup_in_keys: "map_of xs k = Some v \<Longrightarrow> k \<in> set (map fst xs)"
  by (metis map_of_SomeD image_eqI fst_conv set_map)

lemma engage_lookup:
  assumes "\<not> emergencyStop st" and "map_of (belts st) bid = Some b"
  shows "map_of (belts (toggleEmergencyStop st)) bid =
     Some (stopped (bid \<in> set (belt_controls st)) b)"
  using assms lookup_in_keys [OF assms(2)]
  by (simp add: toggleEmergencyStop_def Let_def fold_stopBelt_lookup)

lemma release_lookup:
  assumes "emergencyStop st" and "map_of (belts st) bid = Some b"
  shows "map_of (belts (toggleEmergencyStop st)) bid =
     Some (restarted (bid \<in> set (belt_controls st)) b)"
  using assms lookup_in_keys [OF assms(2)]
  by (simp add: toggleEmergencyStop_def Let_def fold_restartBelt_lookup)

lemma toggleEmergencyStop_lookup_None:
  "map_of (belts st) bid = None \<Longrightarrow> map_of (belts (toggleEmergencyStop st)) bid = None"
  by (simp add: toggleEmergencyStop_def Let_def fold_restartBelt_lookup fold_stopBelt_lookup)

lemma toggleEmergencyStop_flag:
  "emergencyStop (toggleEmergencyStop st) = (\<not> emergencyStop st)"
  by (simp add: toggleEmergencyStop_def Let_def fold_restartBelt_estop fold_stopBelt_estop)

lemma toggleEmergencyStop_controls:
  "belt_controls (toggleEmergencyStop st) = belt_controls st"
  by (simp add: toggleEmergencyStop_def Let_def fold_restartBelt_controls fold_stopBelt_controls)

lemma belt_flags_update:
  "map_of xs k = Some b \<Longrightarrow> enabled b' = enabled b \<Longrightarrow> wasRunning b' = wasRunning b \<Longrightarrow>
     map_option (\<lambda>b. (enabled b, wasRunning b)) (map_of (AList.update k b' xs) bid) =
     map_option (\<lambda>b. (enabled b, wasRunning b)) (map_of xs bid)"
  by (simp add: update_conv')

lemma belt_flags_map_entry:
  "(\<And>b. enabled (f b) = enabled b \<and> wasRunning (f b) = wasRunning b) \<Longrightarrow>
     map_option (\<lambda>b. (enabled b, wasRunning b)) (map_of (AList.map_entry k f xs) bid) =
     map_option (\<lambda>b. (enabled b, wasRunning b)) (map_of xs bid)"
  by (cases "bid = k")
    (simp_all add: map_of_map_entry_same map_of_map_entry_other option.map_comp comp_def)

lemma createBrushItem_view: "stop_view (createBrushItem st now d bid p) = stop_view st"
  by (auto simp: stop_view_def belt_flags_def fun_eq_iff createBrushItem_def Let_def
      belt_flags_update split: option.splits)

lemma spawnOnBelt_view: "stop_view (spawnOnBelt now ds bid st) = stop_view st"
proof -
  have "stop_view (s\<lparr>belts := AList.map_entry bid (\<lambda>b. b\<lparr>lastSpawn := now\<rparr>) (belts s)\<rparr>) =
      stop_view s" for s
    by (simp add: stop_view_def belt_flags_def fun_eq_iff belt_flags_map_entry)
  then show ?thesis
    by (simp add: spawnOnBelt_def Let_def createBrushItem_view split: option.splits)
qed

lemma spawnItems_view: "stop_view (spawnItems now ds st) = stop_view st"
  unfolding spawnItems_def
  by (rule fold_invariant [where P = "\<lambda>s. stop_view s = stop_view st"])
    (simp_all add: spawnOnBelt_view)

lemma processItem_view: "stop_view (fst (processItem now st it)) = stop_view st"
  by (auto simp: stop_view_def belt_flags_def fun_eq_iff processItem_def Let_def
      createAlarm_def belt_flags_update split: option.splits prod.splits)

lemma moveItemToBin_view: "stop_view (moveItemToBin st it) = stop_view st"
  by (simp add: stop_view_def belt_flags_def moveItemToBin_def split: option.splits)

lemma removeItem_view: "stop_view (removeItem st k) = stop_view st"
  by (auto simp: stop_view_def belt_flags_def fun_eq_iff removeItem_def Let_def
      belt_flags_update split: option.splits)

lemma routeItem_view: "stop_view (routeItem k it st) = stop_view st"
  by (simp add: routeItem_def Let_def moveItemToBin_view removeItem_view)

lemma stop_view_items: "stop_view (st\<lparr>items := xs\<rparr>) = stop_view st"
  by (simp add: stop_view_def belt_flags_def)

lemma stop_view_sensors: "stop_view (st\<lparr>sensors := xs\<rparr>) = stop_view st"
  by (simp add: stop_view_def belt_flags_def)

lemma stop_view_lastTime: "stop_view (st\<lparr>lastTime := t\<rparr>) = stop_view st"
  by (simp add: stop_view_def belt_flags_def)

lemma updateItem_view: "stop_view (updateItem dt now k st) = stop_view st"
proof (cases "map_of (items st) k")
  case None
  then show ?thesis by (simp add: updateItem_def)
next
  case (Some it)
  define it1 where "it1 = it\<lparr>position_x :=
    js_add (position_x it) (js_mul (js_mul (velocity it) dt) (simulationSpeed st))\<rparr>"
  obtain ss it2 where cs: "checkSensorInteractions now (sensors st) it1 = (ss, it2)"
    by (cases "checkSensorInteractions now (sensors st) it1")
  obtain st2 it3 where pi: "processItem now (st\<lparr>sensors := ss\<rparr>) it2 = (st2, it3)"
    by (cases "processItem now (st\<lparr>sensors := ss\<rparr>) it2")
  have "stop_view st2 = stop_view st"
    using processItem_view [of now "st\<lparr>sensors := ss\<rparr>" it2] pi by (simp add: stop_view_sensors)
  then show ?thesis
    using Some cs pi
    by (simp add: updateItem_def Let_def it1_def [symmetric] routeItem_view stop_view_items)
qed

lemma updateItems_view: "stop_view (updateItems dt now st) = stop_view st"
  unfolding updateItems_def
  by (rule fold_invariant [where P = "\<lambda>s. stop_view s = stop_view st"])
    (simp_all add: updateItem_view)

lemma animate_view: "stop_view (animate now ds st) = stop_view st"
  by (simp add: animate_def Let_def updateItems_view spawnItems_view stop_view_lastTime)

lemma toggleScenario_view: "stop_view (toggleScenario n st) = stop_view st"
  by (cases n) (simp_all add: stop_view_def belt_flags_def)

lemma setBeltSpeed_view: "stop_view (setBeltSpeed bid v st) = stop_view st"
  by (auto simp: stop_view_def belt_flags_def fun_eq_iff setBeltSpeed_def belt_flags_update
      split: option.splits)

lemma setBeltProfile_view: "stop_view (setBeltProfile bid p st) = stop_view st"
  by (auto simp: stop_view_def belt_flags_def fun_eq_iff setBeltProfile_def belt_flags_update
      split: option.splits)

lemma quiet_view: "quiet op \<Longrightarrow> stop_view (perform op st) = stop_view st"
proof (cases op)
  case (Frame now ds)
  then show ?thesis by (simp add: animate_view)
next
  case (SetBeltSpeed bid v)
  then show ?thesis by (simp add: setBeltSpeed_view)
next
  case (SetBeltProfile bid p)
  then show ?thesis by (simp add: setBeltProfile_view)
next
  case (ToggleScenario n)
  then show ?thesis by (simp add: toggleScenario_view)
qed (simp_all add: stop_view_def belt_flags_def finishDisposition_def togglePause_def
      resetScenarios_def clearAlarms_def saveProfileChanges_def saveSensorSettings_def
      split: option.splits)

lemma quiet_run_view: "list_all quiet ops \<Longrightarrow> stop_view (run ops st) = stop_view st"
  unfolding run_def
  by (induction ops arbitrary: st) (simp_all add: quiet_view)

lemma no_record_flags:
  "no_record st \<longleftrightarrow> (\<forall>bid e w. belt_flags st bid = Some (e, w) \<longrightarrow> \<not> w)"
  by (auto simp: no_record_def belt_flags_def)

lemma view_no_record: "stop_view s = stop_view st \<Longrightarrow> no_record s = no_record st"
  by (simp add: stop_view_def no_record_flags)

lemma view_estop: "stop_view s = stop_view st \<Longrightarrow> emergencyStop s = emergencyStop st"
  by (simp add: stop_view_def)

lemma toggleBelt_no_record: "no_record st \<Longrightarrow> no_record (toggleBelt k st)"
  by (auto simp: no_record_def toggleBelt_lookup_any split: if_splits)

lemma restarted_clears: "\<not> wasRunning (restarted c b)"
  by (simp add: restarted_def)

lemma release_no_record: "emergencyStop st \<Longrightarrow> no_record (toggleEmergencyStop st)"
proof -
  assume e: "emergencyStop st"
  have "\<not> wasRunning b'" if "map_of (belts (toggleEmergencyStop st)) bid = Some b'" for bid b'
  proof (cases "map_of (belts st) bid")
    case None
    then show ?thesis using that by (simp add: toggleEmergencyStop_lookup_None)
  next
    case (Some b)
    then show ?thesis using that release_lookup [OF e Some] restarted_clears by auto
  qed
  then show ?thesis by (auto simp: no_record_def)
qed

lemma initData_belts_lookup:
  "map_of (belts (initData st)) bid =
     (case map_of beltsData bid of Some b \<Rightarrow> Some b | None \<Rightarrow> map_of (belts st) bid)"
  by (simp add: initData_def beltsData_def update_conv')

lemma resetConfiguration_no_record: "no_record st \<Longrightarrow> no_record (resetConfiguration st)"
  by (auto simp: no_record_def resetConfiguration_def initData_belts_lookup beltsData_def
      newBelt_def split: option.splits if_splits)

lemma resetConfiguration_estop: "emergencyStop (resetConfiguration st) = emergencyStop st"
  by (simp add: resetConfiguration_def initData_def)

lemma perform_released_clean: "released_clean st \<Longrightarrow> released_clean (perform op st)"
proof (cases "quiet op")
  case True
  assume "released_clean st"
  then show ?thesis
    using quiet_view [OF True, of st]
    by (auto simp: released_clean_def dest: view_no_record view_estop)
next
  case False
  assume rc: "released_clean st"
  from False consider (tb) bid where "op = ToggleBelt bid" | (te) "op = ToggleEmergencyStop"
    | (rs) "op = ResetConfiguration"
    by (cases op) auto
  then show ?thesis
  proof cases
    case tb
    then show ?thesis using rc
      by (simp add: released_clean_def toggleBelt_estop toggleBelt_no_record)
  next
    case te
    then show ?thesis using rc
      by (auto simp: released_clean_def toggleEmergencyStop_flag release_no_record)
  next
    case rs
    then show ?thesis using rc
      by (simp add: released_clean_def resetConfiguration_estop resetConfiguration_no_record)
  qed
qed

lemma constructed_released_clean: "released_clean (constructed t0 c d)"
  by (auto simp: released_clean_def no_record_def constructed_def initData_belts_lookup
      beltsData_def newBelt_def split: if_splits)

lemma reachable_released_clean: "released_clean (run ops (constructed t0 c d))"
  by (rule run_invariant) (simp_all add: constructed_released_clean perform_released_clean)

lemma restore_enabled:
  assumes "\<not> emergencyStop st" and "no_record st" and "list_all quiet ops"
  shows "map_option enabled (map_of (belts (toggleEmergencyStop (run ops (toggleEmergencyStop st)))) bid) =
     map_option enabled (map_of (belts st) bid)"
proof -
  define s1 where "s1 = toggleEmergencyStop st"
  define s2 where "s2 = run ops s1"
  have v: "stop_view s2 = stop_view s1"
    unfolding s2_def using assms(3) by (rule quiet_run_view)
  have e2: "emergencyStop s2"
    using v assms(1) by (simp add: stop_view_def s1_def toggleEmergencyStop_flag)
  have c2: "belt_controls s2 = belt_controls st"
    using v by (simp add: stop_view_def s1_def toggleEmergencyStop_controls)
  have f2: "belt_flags s2 bid = belt_flags s1 bid"
    using v by (simp add: stop_view_def)
  show ?thesis
  proof (cases "map_of (belts st) bid")
    case None
    then have "map_of (belts s1) bid = None"
      by (simp add: s1_def toggleEmergencyStop_lookup_None)
    then have "map_of (belts s2) bid = None"
      using f2 by (simp add: belt_flags_def)
    then show ?thesis
      using None by (simp add: toggleEmergencyStop_lookup_None s2_def [symmetric] s1_def [symmetric])
  next
    case (Some b)
    have nw: "\<not> wasRunning b" using assms(2) Some by (simp add: no_record_def)
    have l1: "map_of (belts s1) bid = Some (stopped (bid \<in> set (belt_controls st)) b)"
      unfolding s1_def using assms(1) Some by (rule engage_lookup)
    then obtain b2 where l2: "map_of (belts s2) bid = Some b2"
      and fl: "enabled b2 = enabled (stopped (bid \<in> set (belt_controls st)) b)"
              "wasRunning b2 = wasRunning (stopped (bid \<in> set (belt_controls st)) b)"
      using f2 by (auto simp: belt_flags_def)
    have "map_of (belts (toggleEmergencyStop s2)) bid =
        Some (restarted (bid \<in> set (belt_controls st)) b2)"
      using release_lookup [OF e2 l2] c2 by simp
    then show ?thesis
      using Some fl nw
      by (auto simp: s2_def [symmetric] s1_def [symmetric] restarted_def stopped_def)
  qed
qed

text \<open>
  Engaging the emergency stop turns every enabled belt into \<open>stopped\<close>: it is recorded
  as having been running and, its page controls being present, disabled. Releasing the
  stop turns every recorded belt into \<open>restarted\<close>: it is toggled and its record is
  cleared. Whenever the stop is released no belt carries a record, in every state the
  simulator can reach. So engaging the stop, performing any operations that are neither
  a toggle of one belt nor a reset of the configuration, and releasing the stop gives
  every belt the enabled flag it had before.
\<close>

lemma stop_round_trip_without_reset:
  "(\<not> emergencyStop st \<and> map_of (belts st) bid = Some b \<longrightarrow>
      emergencyStop (toggleEmergencyStop st) \<and>
      map_of (belts (toggleEmergencyStop st)) bid =
        Some (stopped (bid \<in> set (belt_controls st)) b)) \<and>
   (emergencyStop st \<and> map_of (belts st) bid = Some b \<longrightarrow>
      \<not> emergencyStop (toggleEmergencyStop st) \<and>
      map_of (belts (toggleEmergencyStop st)) bid =
        Some (restarted (bid \<in> set (belt_controls st)) b)) \<and>
   (\<not> emergencyStop st \<and> no_record st \<and> list_all quiet ops \<longrightarrow>
      map_option enabled
        (map_of (belts (toggleEmergencyStop (run ops (toggleEmergencyStop st)))) bid) =
      map_option enabled (map_of (belts st) bid)) \<and>
   (\<not> emergencyStop (run pre (constructed t0 controls displays)) \<longrightarrow>
      no_record (run pre (constructed t0 controls displays)))"
  using engage_lookup [of st bid b] release_lookup [of st bid b]
    restore_enabled [of st ops bid] reachable_released_clean [of pre t0 controls displays]
  by (simp add: toggleEmergencyStop_flag released_clean_def)

lemma stop_round_trip_example:
  "map (\<lambda>(k, b). (k, enabled b, wasRunning b)) (belts two_running) =
     [(''B1'', True, False), (''B2'', False, False), (''B3'', True, False)] \<and>
   map (\<lambda>(k, b). (k, enabled b, wasRunning b)) (belts (toggleEmergencyStop two_running)) =
     [(''B1'', False, True), (''B2'', False, False), (''B3'', False, True)] \<and>
   map_option enabled (map_of (belts
     (toggleEmergencyStop (run during_stop (toggleEmergencyStop two_running)))) ''B1'') = Some True \<and>
   map_option enabled (map_of (belts
     (toggleEmergencyStop (run during_stop (toggleEmergencyStop two_running)))) ''B2'') = Some False \<and>
   map_option enabled (map_of (belts
     (toggleEmergencyStop (run during_stop (toggleEmergencyStop two_running)))) ''B3'') = Some True"
proof -
  have before: "map (\<lambda>(k, b). (k, enabled b, wasRunning b)) (belts two_running) =
     [(''B1'', True, False), (''B2'', False, False), (''B3'', True, False)]"
    by code_simp
  have engaged: "map (\<lambda>(k, b). (k, enabled b, wasRunning b))
     (belts (toggleEmergencyStop two_running)) =
     [(''B1'', False, True), (''B2'', False, False), (''B3'', False, True)]"
    by code_simp
  have released: "\<not> emergencyStop two_running"
    by code_simp
  have q: "list_all quiet during_stop"
    by (simp add: during_stop_def)
  have e1: "map_option enabled (map_of (belts two_running) ''B1'') = Some True"
    by code_simp
  have e2: "map_option enabled (map_of (belts two_running) ''B2'') = Some False"
    by code_simp
  have e3: "map_option enabled (map_of (belts two_running) ''B3'') = Some True"
    by code_simp
  have clean: "no_record two_running"
    using stop_round_trip_without_reset [of two_running "''B1''" undefined "[]"
        "[ToggleBelt ''B1'', ToggleBelt ''B3'']" 0 "[''B1'', ''B2'', ''B3'']"
        "[''B1'', ''B2'', ''B3'']"] released
    by (simp add: two_running_def fresh_line_def)
  show ?thesis
    using stop_round_trip_without_reset [of two_running "''B1''" undefined during_stop]
      stop_round_trip_without_reset [of two_running "''B2''" undefined during_stop]
      stop_round_trip_without_reset [of two_running "''B3''" undefined during_stop]
      before engaged released q clean e1 e2 e3
    by simp
qed

text \<open>
  Claim C9 fails at \<open>resetConfiguration\<close>. Belts B1 and B3 run and B2 does not. Engaging
  the emergency stop disables B1 and B3 and records them. While the stop is engaged no
  belt is toggled, but the configuration is reset: \<open>resetConfiguration\<close> calls
  \<open>initData\<close>, which stores fresh belts, disabled and without a record, and leaves the
  emergency stop engaged. Releasing the stop then finds no recorded belt and restarts
  none: B1 and B3, enabled before the stop, are disabled after it. Without the reset, the
  same engage and release give every belt its flag back.
\<close>

theorem reset_during_stop_loses_belts:
  "\<not> emergencyStop two_running \<and>
   map (\<lambda>(k, b). (k, enabled b, wasRunning b)) (belts two_running) =
     [(''B1'', True, False), (''B2'', False, False), (''B3'', True, False)] \<and>
   emergencyStop (run [ToggleEmergencyStop] two_running) \<and>
   map (\<lambda>(k, b). (k, enabled b, wasRunning b)) (belts (run [ToggleEmergencyStop] two_running)) =
     [(''B1'', False, True), (''B2'', False, False), (''B3'', False, True)] \<and>
   emergencyStop (run [ToggleEmergencyStop, ResetConfiguration] two_running) \<and>
   map (\<lambda>(k, b). (k, enabled b, wasRunning b)) (belts (run [ToggleEmergencyStop, ResetConfiguration] two_running)) =
     [(''B1'', False, False), (''B2'', False, False), (''B3'', False, False)] \<and>
   \<not> emergencyStop
     (run [ToggleEmergencyStop, ResetConfiguration, ToggleEmergencyStop] two_running) \<and>
   map (\<lambda>(k, b). (k, enabled b, wasRunning b))
     (belts (run [ToggleEmergencyStop, ResetConfiguration, ToggleEmergencyStop] two_running)) =
     [(''B1'', False, False), (''B2'', False, False), (''B3'', False, False)] \<and>
   map_option enabled (map_of (belts
     (run [ToggleEmergencyStop, ResetConfiguration, ToggleEmergencyStop] two_running)) ''B1'') \<noteq>
     map_option enabled (map_of (belts two_running) ''B1'') \<and>
   map_option enabled (map_of (belts
     (run [ToggleEmergencyStop, ResetConfiguration, ToggleEmergencyStop] two_running)) ''B3'') \<noteq>
     map_option enabled (map_of (belts two_running) ''B3'') \<and>
   map (\<lambda>(k, b). (k, enabled b, wasRunning b)) (belts (run [ToggleEmergencyStop, ToggleEmergencyStop] two_running)) =
     [(''B1'', True, False), (''B2'', False, False), (''B3'', True, False)]"
  by code_simp

section \<open>Statistics and the configuration reset\<close>

lemma counters_update_same:
  "map_of xs k = Some b \<Longrightarrow> counters b' = counters b \<Longrightarrow>
     map (\<lambda>(k, b). (k, counters b)) (AList.update k b' xs) = map (\<lambda>(k, b). (k, counters b)) xs"
  by (induction xs) (auto split: if_splits)

lemma counters_map_entry_same:
  "(\<And>b. counters (f b) = counters b) \<Longrightarrow>
     map (\<lambda>(k, b). (k, counters b)) (AList.map_entry k f xs) = map (\<lambda>(k, b). (k, counters b)) xs"
  by (induction xs) auto

lemma view_agree: "counter_view s = counter_view st \<Longrightarrow> counters_agree s = counters_agree st"
proof -
  assume v: "counter_view s = counter_view st"
  have m: "map (\<lambda>(k, b). f (counters b)) (belts x) =
      map (\<lambda>(k, c). f c) (map (\<lambda>(k, b). (k, counters b)) (belts x))" for f :: "belt_counters \<Rightarrow> nat" and x
    by (simp add: case_prod_unfold)
  show ?thesis
    using v unfolding counters_agree_def m by (simp add: counter_view_def)
qed

lemma lane_le_refl: "lane_le x x"
  by (simp add: lane_le_def case_prod_unfold)

lemma lane_le_trans: "lane_le x y \<Longrightarrow> lane_le y z \<Longrightarrow> lane_le x z"
  by (auto simp: lane_le_def case_prod_unfold)

lemma grows_refl: "grows st st"
  by (simp add: grows_def stats_le_def list_all2_refl lane_le_refl)

lemma grows_trans: "grows a b \<Longrightarrow> grows b c \<Longrightarrow> grows a c"
  unfolding grows_def stats_le_def
  using list_all2_trans [of lane_le lane_le lane_le] lane_le_trans by fastforce

lemma view_grows: "counter_view s = counter_view st \<Longrightarrow> grows st s"
proof -
  assume v: "counter_view s = counter_view st"
  have "list_all2 lane_le xs ys"
    if "map (\<lambda>(k, b). (k, counters b)) ys = map (\<lambda>(k, b). (k, counters b)) xs"
    for xs ys :: "(string \<times> belt) list"
    using that
  proof (induction xs arbitrary: ys)
    case Nil
    then show ?case by simp
  next
    case (Cons x xs)
    then obtain y ys' where "ys = y # ys'" by (cases ys) auto
    then show ?case using Cons by (auto simp: lane_le_def case_prod_unfold)
  qed
  then show ?thesis using v by (simp add: grows_def stats_le_def counter_view_def)
qed

lemma keeps_refl: "keeps st st"
  by (simp add: keeps_def grows_refl)

lemma keeps_trans:
  assumes "keeps a b" and "keeps b c"
  shows "keeps a c"
proof -
  have "grows a c" using assms grows_trans [of a b c] by (simp add: keeps_def)
  moreover have "counters_agree a \<longrightarrow> counters_agree c" using assms by (simp add: keeps_def)
  ultimately show ?thesis by (simp add: keeps_def)
qed

lemma view_keeps: "counter_view s = counter_view st \<Longrightarrow> keeps st s"
  using view_agree [of s st] view_grows [of s st] by (simp add: keeps_def)

lemma sum_update:
  "map_of xs k = Some b \<Longrightarrow>
     sum_list (map (\<lambda>(k, b). g b) (AList.update k b' xs)) + g b =
     sum_list (map (\<lambda>(k, b). g b) xs) + (g b' :: nat)"
  by (induction xs) (auto split: if_splits)

lemma lanes_update:
  "map_of xs k = Some b \<Longrightarrow> lane_le (k, b) (k, b') \<Longrightarrow> list_all2 lane_le xs (AList.update k b' xs)"
  by (induction xs) (auto simp: list_all2_refl lane_le_refl split: if_splits)

lemma createAlarm_counter_view: "counter_view (createAlarm now it qc st) = counter_view st"
  by (simp add: createAlarm_def counter_view_def Let_def)

lemma bump_keeps:
  assumes "map_of (belts st) k = Some b"
    and "updateCounters qc (counters b) (statistics st) = (c, s)"
  shows "keeps st (st\<lparr>belts := AList.update k (b\<lparr>counters := c\<rparr>) (belts st),
                     statistics := s\<lparr>totalItems := totalItems s + 1\<rparr>\<rparr>)"
proof -
  have su: "sum_list (map (\<lambda>(k, b). g (counters b)) (AList.update k (b\<lparr>counters := c\<rparr>) (belts st))) +
      g (counters b) = sum_list (map (\<lambda>(k, b). g (counters b)) (belts st)) + g c"
    for g :: "belt_counters \<Rightarrow> nat"
    using sum_update [OF assms(1), of "\<lambda>b. g (counters b)" "b\<lparr>counters := c\<rparr>"] by simp
  have le: "lane_le (k, b) (k, b\<lparr>counters := c\<rparr>)"
    using assms(2) by (auto simp: lane_le_def updateCounters_def split: if_splits)
  have ll: "list_all2 lane_le (belts st) (AList.update k (b\<lparr>counters := c\<rparr>) (belts st))"
    using lanes_update [OF assms(1) le] .
  have sl: "stats_le (statistics st) (s\<lparr>totalItems := totalItems s + 1\<rparr>)"
    using assms(2) by (auto simp: stats_le_def updateCounters_def split: if_splits)
  have ag: "counters_agree (st\<lparr>belts := AList.update k (b\<lparr>counters := c\<rparr>) (belts st),
      statistics := s\<lparr>totalItems := totalItems s + 1\<rparr>\<rparr>)" if "counters_agree st"
    using that assms(2) su [of ok] su [of red] su [of green] su [of yellow]
    by (auto simp: counters_agree_def updateCounters_def split: if_splits)
  show ?thesis using ag ll sl by (simp add: keeps_def grows_def)
qed

lemma processItem_keeps: "keeps st (fst (processItem now st it))"
proof (cases "status it = ''PROCESSING'' \<and>
    list_all (\<lambda>s. s \<in> set (map sensorId (sensorReadings it))) (requiredSensors it)")
  case False
  then show ?thesis by (auto simp: processItem_def Let_def keeps_refl)
next
  case True
  show ?thesis
  proof (cases "map_of (belts st) (beltId it)")
    case None
    have "counter_view (st\<lparr>running := False\<rparr>) = counter_view st"
      by (simp add: counter_view_def)
    then have "keeps st (st\<lparr>running := False\<rparr>)" by (rule view_keeps)
    then show ?thesis using True None by (simp add: processItem_def Let_def)
  next
    case (Some b)
    obtain c s where u: "updateCounters (evaluateQC (profiles st) it) (counters b) (statistics st) = (c, s)"
      by (cases "updateCounters (evaluateQC (profiles st) it) (counters b) (statistics st)")
    define st1 where "st1 = st\<lparr>belts := AList.update (beltId it) (b\<lparr>counters := c\<rparr>) (belts st),
                     statistics := s\<lparr>totalItems := totalItems s + 1\<rparr>\<rparr>"
    have k1: "keeps st st1" unfolding st1_def using Some u by (rule bump_keeps)
    have k2: "keeps st1 (createAlarm now' it' qc st1)" for now' it' qc
      by (rule view_keeps) (rule createAlarm_counter_view)
    have "fst (processItem now st it) = st1 \<or>
        (\<exists>it'. fst (processItem now st it) = createAlarm now it' (evaluateQC (profiles st) it) st1)"
      using True Some u by (auto simp: processItem_def Let_def st1_def)
    then show ?thesis using k1 k2 keeps_trans [of st st1] by auto
  qed
qed

lemma createBrushItem_counter_view:
  "counter_view (createBrushItem st now d bid p) = counter_view st"
  by (simp add: counter_view_def createBrushItem_def Let_def counters_update_same
      split: option.splits)

lemma spawnOnBelt_counter_view: "counter_view (spawnOnBelt now ds bid st) = counter_view st"
proof -
  have "counter_view (s\<lparr>belts := AList.map_entry bid (\<lambda>b. b\<lparr>lastSpawn := now\<rparr>) (belts s)\<rparr>) =
      counter_view s" for s
    by (simp add: counter_view_def counters_map_entry_same)
  then show ?thesis
    by (simp add: spawnOnBelt_def Let_def createBrushItem_counter_view split: option.splits)
qed

lemma spawnItems_counter_view: "counter_view (spawnItems now ds st) = counter_view st"
  unfolding spawnItems_def
  by (rule fold_invariant [where P = "\<lambda>s. counter_view s = counter_view st"])
    (simp_all add: spawnOnBelt_counter_view)

lemma moveItemToBin_counter_view: "counter_view (moveItemToBin st it) = counter_view st"
  by (simp add: counter_view_def moveItemToBin_def split: option.splits)

lemma removeItem_counter_view: "counter_view (removeItem st k) = counter_view st"
  by (simp add: counter_view_def removeItem_def Let_def counters_update_same
      split: option.splits)

lemma routeItem_counter_view: "counter_view (routeItem k it st) = counter_view st"
  by (simp add: routeItem_def Let_def moveItemToBin_counter_view removeItem_counter_view)

lemma updateItem_keeps: "keeps st (updateItem dt now k st)"
proof (cases "map_of (items st) k")
  case None
  then show ?thesis by (simp add: updateItem_def keeps_refl)
next
  case (Some it)
  define it1 where "it1 = it\<lparr>position_x :=
    js_add (position_x it) (js_mul (js_mul (velocity it) dt) (simulationSpeed st))\<rparr>"
  obtain ss it2 where cs: "checkSensorInteractions now (sensors st) it1 = (ss, it2)"
    by (cases "checkSensorInteractions now (sensors st) it1")
  obtain st2 it3 where pi: "processItem now (st\<lparr>sensors := ss\<rparr>) it2 = (st2, it3)"
    by (cases "processItem now (st\<lparr>sensors := ss\<rparr>) it2")
  define st3 where "st3 = st2\<lparr>items := AList.update k it3 (items st2)\<rparr>"
  have "counter_view (st\<lparr>sensors := ss\<rparr>) = counter_view st"
    by (simp add: counter_view_def)
  then have k1: "keeps st (st\<lparr>sensors := ss\<rparr>)" by (rule view_keeps)
  have k2: "keeps (st\<lparr>sensors := ss\<rparr>) st2"
    using processItem_keeps [of "st\<lparr>sensors := ss\<rparr>" now it2] pi by simp
  have "counter_view st3 = counter_view st2"
    by (simp add: counter_view_def st3_def)
  then have k3: "keeps st2 st3" by (rule view_keeps)
  have k4: "keeps st3 (routeItem k it3 st3)"
    by (rule view_keeps) (rule routeItem_counter_view)
  have k13: "keeps st st3"
    using keeps_trans [OF keeps_trans [OF k1 k2] k3] .
  have k14: "keeps st (routeItem k it3 st3)"
    using keeps_trans [OF k13 k4] .
  show ?thesis
    using Some cs pi k13 k14
    by (simp add: updateItem_def Let_def it1_def [symmetric] st3_def [symmetric] keeps_refl)
qed

lemma fold_keeps:
  assumes "\<And>x s. keeps s (f x s)"
  shows "keeps st (fold f xs st)"
proof (induction xs arbitrary: st)
  case Nil
  then show ?case by (simp add: keeps_refl)
next
  case (Cons a xs)
  show ?case using keeps_trans [OF assms [of st a] Cons.IH [of "f a st"]] by simp
qed

lemma updateItems_keeps: "keeps st (updateItems dt now st)"
  unfolding updateItems_def
  by (rule fold_keeps) (simp add: updateItem_keeps keeps_refl)

lemma animate_keeps: "keeps st (animate now ds st)"
proof -
  have "counter_view (spawnItems now ds (st\<lparr>lastTime := now\<rparr>)) = counter_view st"
    by (simp add: spawnItems_counter_view) (simp add: counter_view_def)
  then have "keeps st (spawnItems now ds (st\<lparr>lastTime := now\<rparr>))" by (rule view_keeps)
  then show ?thesis
    using keeps_trans updateItems_keeps by (auto simp: animate_def Let_def keeps_refl)
qed

lemma toggleBelt_counter_view: "counter_view (toggleBelt bid st) = counter_view st"
  by (simp add: counter_view_def toggleBelt_def counters_update_same split: option.splits)

lemma stopBelt_counter_view: "counter_view (stopBelt bid st) = counter_view st"
proof (cases "map_of (belts st) bid")
  case None
  then show ?thesis by (simp add: stopBelt_def)
next
  case (Some b)
  have "counter_view (st\<lparr>belts := AList.update bid (b\<lparr>wasRunning := True\<rparr>) (belts st)\<rparr>) =
      counter_view st"
    using Some by (simp add: counter_view_def counters_update_same)
  then show ?thesis using Some by (simp add: stopBelt_def toggleBelt_counter_view)
qed

lemma restartBelt_counter_view: "counter_view (restartBelt bid st) = counter_view st"
proof -
  have "counter_view (s\<lparr>belts := AList.map_entry bid (\<lambda>b. b\<lparr>wasRunning := False\<rparr>) (belts s)\<rparr>) =
      counter_view s" for s
    by (simp add: counter_view_def counters_map_entry_same)
  then show ?thesis
    by (simp add: restartBelt_def Let_def toggleBelt_counter_view split: option.splits)
qed

lemma toggleEmergencyStop_counter_view:
  "counter_view (toggleEmergencyStop st) = counter_view st"
proof -
  have a: "counter_view (fold stopBelt xs s) = counter_view s" for xs s
    by (induction xs arbitrary: s) (simp_all add: stopBelt_counter_view)
  have b: "counter_view (fold restartBelt xs s) = counter_view s" for xs s
    by (induction xs arbitrary: s) (simp_all add: restartBelt_counter_view)
  have c: "counter_view (st\<lparr>emergencyStop := e\<rparr>) = counter_view st" for e
    by (simp add: counter_view_def)
  show ?thesis by (simp add: toggleEmergencyStop_def Let_def a b c)
qed

lemma setBeltSpeed_counter_view: "counter_view (setBeltSpeed bid v st) = counter_view st"
  by (simp add: counter_view_def setBeltSpeed_def counters_update_same split: option.splits)

lemma setBeltProfile_counter_view: "counter_view (setBeltProfile bid p st) = counter_view st"
  by (simp add: counter_view_def setBeltProfile_def counters_update_same split: option.splits)

lemma toggleScenario_counter_view: "counter_view (toggleScenario n st) = counter_view st"
  by (cases n) (simp_all add: counter_view_def)

lemma perform_keeps: "op \<noteq> ResetConfiguration \<Longrightarrow> keeps st (perform op st)"
proof (cases op)
  case (Frame now ds)
  then show ?thesis by (simp add: animate_keeps)
next
  case (ToggleBelt bid)
  then show ?thesis by (simp add: view_keeps toggleBelt_counter_view)
next
  case (SetBeltSpeed bid v)
  then show ?thesis by (simp add: view_keeps setBeltSpeed_counter_view)
next
  case (SetBeltProfile bid p)
  then show ?thesis by (simp add: view_keeps setBeltProfile_counter_view)
next
  case ToggleEmergencyStop
  then show ?thesis by (simp add: view_keeps toggleEmergencyStop_counter_view)
next
  case (ToggleScenario n)
  then show ?thesis by (simp add: view_keeps toggleScenario_counter_view)
next
  case ResetConfiguration
  assume "op \<noteq> ResetConfiguration"
  then show ?thesis using ResetConfiguration by simp
qed (auto intro!: view_keeps simp: finishDisposition_def togglePause_def resetScenarios_def
      clearAlarms_def saveProfileChanges_def saveSensorSettings_def counter_view_def
      split: option.splits)

lemma run_keeps: "ResetConfiguration \<notin> set ops \<Longrightarrow> keeps st (run ops st)"
  unfolding run_def
proof (induction ops arbitrary: st)
  case Nil
  then show ?case by (simp add: keeps_refl)
next
  case (Cons a ops)
  have "keeps st (perform a st)" using Cons.prems by (intro perform_keeps) auto
  moreover have "keeps (perform a st) (fold perform ops (perform a st))"
    using Cons.prems by (intro Cons.IH) auto
  ultimately show ?case using keeps_trans by auto
qed

lemma constructed_counters_agree: "counters_agree (constructed t0 c d)"
  by (simp add: counters_agree_def constructed_def initData_def beltsData_def newBelt_def)

text \<open>
  Without \<open>resetConfiguration\<close> the counters are sound: from the constructed
  simulator on, no counter ever decreases and every global counter of a verdict class
  is the sum of the counters of that class over the belts.
\<close>

lemma counters_hold_without_reset:
  assumes "ResetConfiguration \<notin> set ops" and "ResetConfiguration \<notin> set later"
  shows "counters_agree (run ops (constructed t0 c d))"
    and "grows (run ops (constructed t0 c d)) (run later (run ops (constructed t0 c d)))"
  using run_keeps [OF assms(1), of "constructed t0 c d"]
    run_keeps [OF assms(2), of "run ops (constructed t0 c d)"] constructed_counters_agree
  by (simp_all add: keeps_def)

text \<open>
  Claim C7 fails at \<open>resetConfiguration\<close>. After one item of belt B1 has been classified
  \<open>OK\<close>, the global counter and the counter of B1 are both 1 and the counters agree.
  \<open>resetConfiguration\<close> calls \<open>initData\<close>, which stores fresh belts with zero counters,
  and leaves the global statistics as they are: the counter of B1 has decreased, and
  the global counter is no longer the sum of the counters of the belts.
\<close>

theorem reset_breaks_counter_sum:
  "okCount (statistics classified_line) = 1 \<and>
   totalItems (statistics classified_line) = 1 \<and>
   map (\<lambda>(k, b). (k, ok (counters b))) (belts classified_line) =
     [(''B1'', 1), (''B2'', 0), (''B3'', 0)] \<and>
   counters_agree classified_line \<and>
   okCount (statistics (run [ResetConfiguration] classified_line)) = 1 \<and>
   totalItems (statistics (run [ResetConfiguration] classified_line)) = 1 \<and>
   map (\<lambda>(k, b). (k, ok (counters b))) (belts (run [ResetConfiguration] classified_line)) =
     [(''B1'', 0), (''B2'', 0), (''B3'', 0)] \<and>
   \<not> counters_agree (run [ResetConfiguration] classified_line) \<and>
   \<not> grows classified_line (run [ResetConfiguration] classified_line)"
  by code_simp

section \<open>Well-formed simulators and the transport step\<close>

lemma view_item_ok: "stop_view s = stop_view st \<Longrightarrow> item_ok s it = item_ok st it"
  by (simp add: stop_view_def item_ok_def)

lemma checkSensor_fields:
  "beltId (snd (checkSensor now sid s it)) = beltId it \<and>
   softness_N (snd (checkSensor now sid s it)) = softness_N it \<and>
   position_x (snd (checkSensor now sid s it)) = position_x it \<and>
   status (snd (checkSensor now sid s it)) = status it"
  by (simp add: checkSensor_def Let_def split: option.splits)

lemma checkSensorInteractions_fields:
  "beltId (snd (checkSensorInteractions now ss it)) = beltId it \<and>
   softness_N (snd (checkSensorInteractions now ss it)) = softness_N it \<and>
   position_x (snd (checkSensorInteractions now ss it)) = position_x it \<and>
   status (snd (checkSensorInteractions now ss it)) = status it"
proof (induction ss arbitrary: it)
  case Nil
  then show ?case by simp
next
  case (Cons a ss)
  obtain sid s where a: "a = (sid, s)" by (cases a)
  obtain s' it' where c: "checkSensor now sid s it = (s', it')"
    by (cases "checkSensor now sid s it")
  obtain r' it'' where r: "checkSensorInteractions now ss it' = (r', it'')"
    by (cases "checkSensorInteractions now ss it'")
  show ?case
    using Cons.IH [of it'] checkSensor_fields [of now sid s it] by (simp add: a c r)
qed

lemma processItem_fields:
  "beltId (snd (processItem now st it)) = beltId it \<and>
   softness_N (snd (processItem now st it)) = softness_N it \<and>
   position_x (snd (processItem now st it)) = position_x it"
  by (simp add: processItem_def Let_def split: option.splits prod.splits)

lemma processItem_running:
  "running st \<Longrightarrow> belt_flags st (beltId it) \<noteq> None \<Longrightarrow> running (fst (processItem now st it))"
  by (auto simp: processItem_def Let_def createAlarm_def belt_flags_def
      split: option.splits prod.splits)

lemma moveItemToBin_running: "running (moveItemToBin st it) = running st"
  by (simp add: moveItemToBin_def split: option.splits)

lemma removeItem_running: "running (removeItem st k) = running st"
  by (simp add: removeItem_def Let_def split: option.splits)

lemma removeItem_items: "items (removeItem st k) = AList.delete k (items st)"
proof (cases "map_of (items st) k")
  case None
  then have "k \<notin> fst ` set (items st)" by (simp add: map_of_eq_None_iff)
  then show ?thesis using None by (simp add: removeItem_def)
next
  case (Some it)
  then show ?thesis by (simp add: removeItem_def Let_def split: option.splits)
qed

lemma routeItem_running: "running (routeItem k it st) = running st"
  by (simp add: routeItem_def Let_def moveItemToBin_running removeItem_running)

lemma routeItem_items:
  "items (routeItem k it st) =
     (if js_gt (position_x it) (Fin 4) then AList.delete k (items st) else items st)"
  by (simp add: routeItem_def Let_def removeItem_items moveItemToBin_items)

lemma well_formed_delete:
  assumes "well_formed s" and "running s'" and "stop_view s' = stop_view s"
    and "items s' = AList.delete k (items s)"
  shows "well_formed s'"
  using assms view_item_ok [OF assms(3)]
  by (auto simp: well_formed_def distinct_delete dest: set_delete_subset)

lemma well_formed_update:
  assumes "well_formed s" and "running s'" and "stop_view s' = stop_view s"
    and "items s' = AList.update k it (items s)" and "item_ok s it"
  shows "well_formed s'"
  using assms view_item_ok [OF assms(3)]
  by (auto simp: well_formed_def distinct_update dest!: set_update_cases)

lemma well_formed_same:
  assumes "well_formed s" and "running s'" and "stop_view s' = stop_view s"
    and "items s' = items s"
  shows "well_formed s'"
  using assms view_item_ok [OF assms(3)]
  by (auto simp: well_formed_def)

lemma checkSensor_gate:
  "gate (sid, s) = gate (sid', s') \<Longrightarrow>
     snd (checkSensor now sid s it) = snd (checkSensor now sid' s' it) \<and>
     gate (sid, fst (checkSensor now sid s it)) = gate (sid, s)"
  by (simp add: gate_def checkSensor_def Let_def split: option.splits)

lemma checkSensorInteractions_snd_Cons:
  "snd (checkSensorInteractions now ((sid, s) # rest) it) =
     snd (checkSensorInteractions now rest (snd (checkSensor now sid s it)))"
  by (simp split: prod.splits)

lemma checkSensorInteractions_gates:
  "map gate ss = map gate ss' \<Longrightarrow>
     snd (checkSensorInteractions now ss it) = snd (checkSensorInteractions now ss' it)"
proof (induction ss arbitrary: ss' it)
  case Nil
  then show ?case by simp
next
  case (Cons a ss)
  then obtain a' rest' where ss': "ss' = a' # rest'" and g: "gate a = gate a'"
    and r: "map gate ss = map gate rest'"
    by (cases ss') auto
  obtain sid s where a: "a = (sid, s)" by (cases a)
  obtain sid' s' where a': "a' = (sid', s')" by (cases a')
  have e: "snd (checkSensor now sid s it) = snd (checkSensor now sid' s' it)"
    using checkSensor_gate [of sid s sid' s' now it] g a a' by simp
  show ?case
    using Cons.IH [OF r, of "snd (checkSensor now sid s it)"] e
    by (simp only: ss' a a' checkSensorInteractions_snd_Cons)
qed

lemma checkSensorInteractions_keeps_gates:
  "map gate (fst (checkSensorInteractions now ss it)) = map gate ss"
proof (induction ss arbitrary: it)
  case Nil
  then show ?case by simp
next
  case (Cons a ss)
  obtain sid s where a: "a = (sid, s)" by (cases a)
  obtain s' it' where c: "checkSensor now sid s it = (s', it')"
    by (cases "checkSensor now sid s it")
  obtain r' it'' where r: "checkSensorInteractions now ss it' = (r', it'')"
    by (cases "checkSensorInteractions now ss it'")
  have "gate (sid, s') = gate (sid, s)"
    using checkSensor_gate [of sid s sid s now it] c by simp
  then show ?case
    using Cons.IH [of it'] by (simp add: a c r)
qed

lemma processItem_item_cong:
  "profiles s = profiles s' \<Longrightarrow> snd (processItem now s it) = snd (processItem now s' it)"
  by (simp add: processItem_def Let_def split: option.splits prod.splits)

lemma processItem_frame_view: "frame_view (fst (processItem now st it)) = frame_view st"
  by (simp add: frame_view_def processItem_def Let_def createAlarm_def
      split: option.splits prod.splits)

lemma transit_cong:
  assumes "frame_view s = frame_view s'"
  shows "transit dt now s it = transit dt now s' it"
proof -
  have m: "moved dt s it = moved dt s' it"
    using assms by (simp add: frame_view_def moved_def)
  have "sensed dt now s it = sensed dt now s' it"
    using assms checkSensorInteractions_gates [of "sensors s" "sensors s'" now "moved dt s it"] m
    by (simp add: frame_view_def sensed_def)
  then show ?thesis
    using assms processItem_item_cong [of s s' now "sensed dt now s' it"]
    by (simp add: transit_def frame_view_def)
qed

lemma after_frame_cong:
  "frame_view s = frame_view s' \<Longrightarrow> after_frame dt now s = after_frame dt now s'"
  by (simp add: after_frame_def fun_eq_iff transit_cong [of s s'] split: option.splits)

lemma moveItemToBin_frame_view: "frame_view (moveItemToBin st it) = frame_view st"
  by (simp add: frame_view_def moveItemToBin_def split: option.splits)

lemma removeItem_frame_view: "frame_view (removeItem st k) = frame_view st"
  by (simp add: frame_view_def removeItem_def Let_def split: option.splits)

lemma routeItem_frame_view: "frame_view (routeItem k it st) = frame_view st"
  by (simp add: routeItem_def Let_def moveItemToBin_frame_view removeItem_frame_view)

lemma transit_fields:
  "beltId (transit dt now st it) = beltId it \<and>
   softness_N (transit dt now st it) = softness_N it \<and>
   position_x (transit dt now st it) =
     js_add (position_x it) (js_mul (js_mul (velocity it) dt) (simulationSpeed st))"
  using processItem_fields [of now st "sensed dt now st it"]
    checkSensorInteractions_fields [of now "sensors st" "moved dt st it"]
  by (simp add: transit_def sensed_def moved_def)

text \<open>One step of the loop of \<open>updateItems\<close>, on a well-formed simulator.\<close>

lemma updateItem_step:
  assumes wf: "well_formed st"
  shows "well_formed (updateItem dt now k st) \<and>
     frame_view (updateItem dt now k st) = frame_view st \<and>
     map_of (items (updateItem dt now k st)) =
       (map_of (items st))(k := after_frame dt now st (map_of (items st) k))"
proof (cases "map_of (items st) k")
  case None
  then show ?thesis using wf by (simp add: updateItem_def after_frame_def fun_upd_idem)
next
  case (Some it)
  show ?thesis
  proof (cases "status it = ''COMPLETED''")
    case True
    then show ?thesis using wf Some by (simp add: updateItem_def after_frame_def fun_upd_idem)
  next
    case False
    define it1 where "it1 = it\<lparr>position_x :=
      js_add (position_x it) (js_mul (js_mul (velocity it) dt) (simulationSpeed st))\<rparr>"
    obtain ss it2 where cs: "checkSensorInteractions now (sensors st) it1 = (ss, it2)"
      by (cases "checkSensorInteractions now (sensors st) it1")
    obtain st2 it3 where pi: "processItem now (st\<lparr>sensors := ss\<rparr>) it2 = (st2, it3)"
      by (cases "processItem now (st\<lparr>sensors := ss\<rparr>) it2")
    define st3 where "st3 = st2\<lparr>items := AList.update k it3 (items st2)\<rparr>"
    have mem: "(k, it) \<in> set (items st)" using Some by (rule map_of_SomeD)
    then have ok: "item_ok st it" using wf by (auto simp: well_formed_def)
    have i2: "it2 = sensed dt now st it"
      using cs by (simp add: sensed_def moved_def it1_def)
    have i3: "it3 = transit dt now st it"
      using pi i2 processItem_item_cong [of "st\<lparr>sensors := ss\<rparr>" st now it2]
      by (simp add: transit_def)
    have b2: "beltId it2 = beltId it"
      using checkSensorInteractions_fields [of now "sensors st" it1] cs by (simp add: it1_def)
    have r2: "running st2"
      using processItem_running [of "st\<lparr>sensors := ss\<rparr>" it2 now] pi wf ok b2
      by (simp add: well_formed_def item_ok_def belt_flags_def)
    have v2: "stop_view st2 = stop_view st"
      using processItem_view [of now "st\<lparr>sensors := ss\<rparr>" it2] pi
      by (simp add: stop_view_sensors)
    have items2: "items st2 = items st"
      using processItem_items [of now "st\<lparr>sensors := ss\<rparr>" it2] pi by simp
    have g: "map gate ss = map gate (sensors st)"
      using checkSensorInteractions_keeps_gates [of now "sensors st" it1] cs by simp
    have f2: "frame_view st2 = frame_view st"
      using processItem_frame_view [of now "st\<lparr>sensors := ss\<rparr>" it2] pi g
      by (simp add: frame_view_def)
    have ok3: "item_ok st it3"
      using ok transit_fields [of dt now st it] by (simp add: i3 item_ok_def)
    have wf3: "well_formed st3"
      by (rule well_formed_update [OF wf, where k = k and it = it3])
        (simp_all add: st3_def r2 v2 items2 ok3 stop_view_items)
    have f3: "frame_view st3 = frame_view st"
      using f2 by (simp add: st3_def frame_view_def)
    have u: "updateItem dt now k st = routeItem k it3 st3"
      using Some False cs pi r2
      by (simp add: updateItem_def Let_def it1_def [symmetric] st3_def [symmetric])
    have wfr: "well_formed (routeItem k it3 st3)"
    proof (cases "js_gt (position_x it3) (Fin 4)")
      case True
      show ?thesis
        by (rule well_formed_delete [OF wf3, where k = k])
          (simp_all add: routeItem_running routeItem_view routeItem_items True wf3 [unfolded well_formed_def])
    next
      case False
      show ?thesis
        by (rule well_formed_same [OF wf3])
          (simp_all add: routeItem_running routeItem_view routeItem_items False wf3 [unfolded well_formed_def])
    qed
    have "map_of (items (routeItem k it3 st3)) =
        (map_of (items st))(k := after_frame dt now st (map_of (items st) k))"
      using Some \<open>status it \<noteq> ''COMPLETED''\<close>
      by (auto simp: routeItem_items st3_def items2 after_frame_def i3 [symmetric]
          update_conv' delete_conv')
    then show ?thesis
      using u wfr f3 by (simp add: routeItem_frame_view)
  qed
qed

lemma updateItems_fold:
  assumes "well_formed s" and "frame_view s = frame_view st" and "distinct ks"
  shows "well_formed (fold (\<lambda>k s. if running s then updateItem dt now k s else s) ks s) \<and>
     frame_view (fold (\<lambda>k s. if running s then updateItem dt now k s else s) ks s) = frame_view st \<and>
     map_of (items (fold (\<lambda>k s. if running s then updateItem dt now k s else s) ks s)) =
       (\<lambda>k. if k \<in> set ks then after_frame dt now st (map_of (items s) k)
            else map_of (items s) k)"
  using assms
proof (induction ks arbitrary: s)
  case Nil
  then show ?case by simp
next
  case (Cons a ks)
  define s1 where "s1 = updateItem dt now a s"
  have r: "running s" using Cons.prems(1) by (simp add: well_formed_def)
  have st: "well_formed s1 \<and> frame_view s1 = frame_view s \<and>
      map_of (items s1) = (map_of (items s))(a := after_frame dt now s (map_of (items s) a))"
    unfolding s1_def using Cons.prems(1) by (rule updateItem_step)
  have af: "after_frame dt now s = after_frame dt now st"
    using Cons.prems(2) by (rule after_frame_cong)
  have d: "distinct ks" and na: "a \<notin> set ks" using Cons.prems(3) by simp_all
  have ih: "well_formed (fold (\<lambda>k s. if running s then updateItem dt now k s else s) ks s1) \<and>
     frame_view (fold (\<lambda>k s. if running s then updateItem dt now k s else s) ks s1) = frame_view st \<and>
     map_of (items (fold (\<lambda>k s. if running s then updateItem dt now k s else s) ks s1)) =
       (\<lambda>k. if k \<in> set ks then after_frame dt now st (map_of (items s1) k)
            else map_of (items s1) k)"
    using Cons.IH [of s1] st Cons.prems(2) d by simp
  show ?case
    using ih st na r by (auto simp: s1_def [symmetric] af fun_eq_iff)
qed

lemma after_frame_None: "after_frame dt now st None = None"
  by (simp add: after_frame_def)

lemma updateItems_effect:
  assumes "well_formed st"
  shows "well_formed (updateItems dt now st) \<and>
     frame_view (updateItems dt now st) = frame_view st \<and>
     map_of (items (updateItems dt now st)) k = after_frame dt now st (map_of (items st) k)"
proof -
  have d: "distinct (map fst (items st))" using assms by (simp add: well_formed_def)
  have "k \<notin> set (map fst (items st)) \<Longrightarrow> map_of (items st) k = None"
    by (simp add: map_of_eq_None_iff)
  then show ?thesis
    using updateItems_fold [OF assms refl d, of dt now]
    by (auto simp: updateItems_def after_frame_None)
qed

lemma simulateSoftness_not_neg: "\<not> js_lt (simulateSoftness c r g a b) (Fin 0)"
proof -
  obtain x where "simulateSoftness c r g a b = js_max (Fin 0) x"
    using simulateSoftness_max by blast
  then show ?thesis by (simp add: js_max_zero_not_neg)
qed

lemma newItem_softness_not_neg: "\<not> js_lt (softness_N (newItem st now d bid b p)) (Fin 0)"
  unfolding newItem_softness
  using simulateSoftness_not_neg js_add_pos_not_neg [OF simulateSoftness_not_neg] by simp

lemma createBrushItem_running: "running (createBrushItem st now d bid p) = running st"
  by (simp add: createBrushItem_def Let_def split: option.splits)

lemma createBrushItem_well_formed:
  assumes "well_formed st"
  shows "well_formed (createBrushItem st now d bid p)"
proof (cases "map_of (belts st) bid")
  case None
  then show ?thesis using assms by (simp add: createBrushItem_def)
next
  case (Some b)
  show ?thesis
  proof (cases "enabled b")
    case False
    then show ?thesis using assms Some by (simp add: createBrushItem_def)
  next
    case True
    have "item_ok st (newItem st now d bid b p)"
      using Some by (simp add: item_ok_def newItem_beltId belt_flags_def newItem_softness_not_neg)
    then show ?thesis
      using assms Some True
      by (intro well_formed_update [OF assms, where k = "(now, id_rand d)"
            and it = "newItem st now d bid b p"])
        (simp_all add: createBrushItem_running createBrushItem_view createBrushItem_items
          well_formed_def)
  qed
qed

lemma spawnOnBelt_well_formed:
  assumes "well_formed st"
  shows "well_formed (spawnOnBelt now ds bid st)"
proof -
  have "well_formed (s\<lparr>belts := AList.map_entry bid (\<lambda>b. b\<lparr>lastSpawn := now\<rparr>) (belts s)\<rparr>)"
    if "well_formed s" for s
    by (rule well_formed_same [OF that])
      (simp_all add: that [unfolded well_formed_def] stop_view_def belt_flags_def fun_eq_iff
        belt_flags_map_entry)
  then show ?thesis
    using assms createBrushItem_well_formed [OF assms]
    by (simp add: spawnOnBelt_def Let_def split: option.splits)
qed

lemma spawnItems_well_formed: "well_formed st \<Longrightarrow> well_formed (spawnItems now ds st)"
  unfolding spawnItems_def by (rule fold_invariant) (simp_all add: spawnOnBelt_well_formed)

lemma animate_well_formed:
  assumes "well_formed st"
  shows "well_formed (animate now ds st)"
proof -
  have "well_formed (st\<lparr>lastTime := now\<rparr>)"
    by (rule well_formed_same [OF assms])
      (simp_all add: assms [unfolded well_formed_def] stop_view_lastTime)
  then show ?thesis
    using assms updateItems_effect spawnItems_well_formed
    by (simp add: animate_def Let_def)
qed

text \<open>Operations that keep the items and every belt of the map.\<close>

lemma well_formed_belts:
  assumes "well_formed s" and "running s'" and "items s' = items s"
    and "\<And>bid. belt_flags s bid \<noteq> None \<Longrightarrow> belt_flags s' bid \<noteq> None"
  shows "well_formed s'"
  using assms by (auto simp: well_formed_def item_ok_def)

lemma toggleBelt_running: "running (toggleBelt bid st) = running st"
  by (simp add: toggleBelt_def split: option.splits)

lemma toggleBelt_well_formed: "well_formed st \<Longrightarrow> well_formed (toggleBelt bid st)"
  by (rule well_formed_belts [where s = st])
    (auto simp: toggleBelt_running toggleBelt_items well_formed_def belt_flags_def
      toggleBelt_lookup_any)

lemma stopBelt_running: "running (stopBelt bid st) = running st"
  by (simp add: stopBelt_def toggleBelt_running split: option.splits)

lemma restartBelt_running: "running (restartBelt bid st) = running st"
  by (simp add: restartBelt_def Let_def toggleBelt_running split: option.splits)

lemma toggleEmergencyStop_running: "running (toggleEmergencyStop st) = running st"
proof -
  have a: "running (fold stopBelt xs s) = running s" for xs s
    by (induction xs arbitrary: s) (simp_all add: stopBelt_running)
  have b: "running (fold restartBelt xs s) = running s" for xs s
    by (induction xs arbitrary: s) (simp_all add: restartBelt_running)
  show ?thesis by (simp add: toggleEmergencyStop_def Let_def a b)
qed

lemma toggleEmergencyStop_keeps_belts:
  "belt_flags st bid \<noteq> None \<Longrightarrow> belt_flags (toggleEmergencyStop st) bid \<noteq> None"
  by (auto simp: belt_flags_def toggleEmergencyStop_def Let_def fold_stopBelt_lookup
      fold_restartBelt_lookup)

lemma toggleEmergencyStop_well_formed:
  "well_formed st \<Longrightarrow> well_formed (toggleEmergencyStop st)"
  by (rule well_formed_belts [where s = st])
    (simp_all add: toggleEmergencyStop_running toggleEmergencyStop_items
      toggleEmergencyStop_keeps_belts well_formed_def)

lemma resetConfiguration_items: "items (resetConfiguration st) = items st"
  by (simp add: resetConfiguration_def initData_def)

lemma resetConfiguration_running: "running (resetConfiguration st) = running st"
  by (simp add: resetConfiguration_def initData_def)

lemma resetConfiguration_keeps_belts:
  "belt_flags st bid \<noteq> None \<Longrightarrow> belt_flags (resetConfiguration st) bid \<noteq> None"
  by (auto simp: belt_flags_def resetConfiguration_def initData_belts_lookup
      split: option.splits)

lemma resetConfiguration_well_formed:
  "well_formed st \<Longrightarrow> well_formed (resetConfiguration st)"
  by (rule well_formed_belts [where s = st])
    (simp_all add: resetConfiguration_items resetConfiguration_running
      resetConfiguration_keeps_belts well_formed_def)

lemma map_fst_map_entry: "map fst (AList.map_entry k f xs) = map fst xs"
  by (induction xs) auto

lemma finishDisposition_well_formed:
  assumes "well_formed st"
  shows "well_formed (finishDisposition k st)"
proof -
  have "item_ok st it'" if "(k', it') \<in> set (AList.map_entry k (\<lambda>it. it\<lparr>status := ''COMPLETED''\<rparr>) (items st))" for k' it'
    using set_map_entry_cases [OF that] assms
    by (auto simp: well_formed_def item_ok_def)
  then show ?thesis
    using assms
    by (auto simp: finishDisposition_def well_formed_def map_fst_map_entry item_ok_def
        belt_flags_def)
qed

lemma setBeltSpeed_well_formed:
  assumes "well_formed st"
  shows "well_formed (setBeltSpeed bid v st)"
proof -
  have v: "stop_view (setBeltSpeed bid v st) = stop_view st" by (rule setBeltSpeed_view)
  have k: "map fst (items (setBeltSpeed bid v st)) = map fst (items st)"
    by (auto simp: setBeltSpeed_def split: option.splits)
  have r: "running (setBeltSpeed bid v st) = running st"
    by (simp add: setBeltSpeed_def split: option.splits)
  have i: "item_ok st it'" if "(k', it') \<in> set (items (setBeltSpeed bid v st))" for k' it'
    using that assms
    by (auto simp: setBeltSpeed_def well_formed_def item_ok_def split: option.splits if_splits)
  show ?thesis
    using assms k r i view_item_ok [OF v] by (auto simp: well_formed_def)
qed

lemma perform_well_formed: "well_formed st \<Longrightarrow> well_formed (perform op st)"
proof (cases op)
  case (Frame now ds)
  assume "well_formed st"
  then show ?thesis using Frame by (simp add: animate_well_formed)
next
  case (FinishDisposition k)
  assume "well_formed st"
  then show ?thesis using FinishDisposition by (simp add: finishDisposition_well_formed)
next
  case (ToggleBelt bid)
  assume "well_formed st"
  then show ?thesis using ToggleBelt by (simp add: toggleBelt_well_formed)
next
  case (SetBeltSpeed bid v)
  assume "well_formed st"
  then show ?thesis using SetBeltSpeed by (simp add: setBeltSpeed_well_formed)
next
  case ToggleEmergencyStop
  assume "well_formed st"
  then show ?thesis using ToggleEmergencyStop by (simp add: toggleEmergencyStop_well_formed)
next
  case ResetConfiguration
  assume "well_formed st"
  then show ?thesis using ResetConfiguration by (simp add: resetConfiguration_well_formed)
next
  case (ToggleScenario n)
  assume "well_formed st"
  then show ?thesis using ToggleScenario
    by (cases n) (simp_all add: well_formed_def item_ok_def belt_flags_def)
qed (auto simp: well_formed_def item_ok_def belt_flags_def setBeltProfile_def togglePause_def
      resetScenarios_def clearAlarms_def saveProfileChanges_def saveSensorSettings_def
      update_conv' split: option.splits)

lemma constructed_well_formed: "well_formed (constructed t0 c d)"
  by (simp add: well_formed_def constructed_def initData_def)

lemma reachable_well_formed: "well_formed (run ops (constructed t0 c d))"
  by (rule run_invariant) (simp_all add: constructed_well_formed perform_well_formed)

lemma processItem_classifies:
  "status it = ''PROCESSING'' \<Longrightarrow>
   list_all (\<lambda>s. s \<in> set (map sensorId (sensorReadings it))) (requiredSensors it) \<Longrightarrow>
     status (snd (processItem now st it)) = qc_status (evaluateQC (profiles st) it) \<and>
     bucket (snd (processItem now st it)) = Some (qc_bucket (evaluateQC (profiles st) it))"
  by (simp add: processItem_def Let_def split: option.splits prod.splits)

lemma checkSensor_keeps_readings:
  "sensorId ` set (sensorReadings it) \<subseteq> sensorId ` set (sensorReadings (snd (checkSensor now sid s it)))"
  by (auto simp: checkSensor_def Let_def split: option.splits)

lemma checkSensorInteractions_keeps_readings:
  "sensorId ` set (sensorReadings it) \<subseteq>
     sensorId ` set (sensorReadings (snd (checkSensorInteractions now ss it)))"
proof (induction ss arbitrary: it)
  case Nil
  then show ?case by simp
next
  case (Cons a ss)
  obtain sid s where a: "a = (sid, s)" by (cases a)
  show ?case
    using Cons.IH [of "snd (checkSensor now sid s it)"] checkSensor_keeps_readings [of it now sid s]
    unfolding a checkSensorInteractions_snd_Cons by blast
qed

lemma checkSensor_records:
  "sensor_beltId s = beltId it \<Longrightarrow>
   js_lt (js_abs (js_sub (position_x it) (sensor_x s))) (Fin 0.1) \<Longrightarrow>
     sid \<in> sensorId ` set (sensorReadings (snd (checkSensor now sid s it)))"
  by (auto simp: checkSensor_def Let_def find_Some_iff image_iff split: option.splits)

lemma checkSensorInteractions_records:
  "(sid, s) \<in> set ss \<Longrightarrow> sensor_beltId s = beltId it \<Longrightarrow>
   js_lt (js_abs (js_sub (position_x it) (sensor_x s))) (Fin 0.1) \<Longrightarrow>
     sid \<in> sensorId ` set (sensorReadings (snd (checkSensorInteractions now ss it)))"
proof (induction ss arbitrary: it)
  case Nil
  then show ?case by simp
next
  case (Cons a ss)
  obtain sid' s' where a: "a = (sid', s')" by (cases a)
  define it' where "it' = snd (checkSensor now sid' s' it)"
  have f: "beltId it' = beltId it" "position_x it' = position_x it"
    using checkSensor_fields [of now sid' s' it] by (simp_all add: it'_def)
  show ?case
  proof (cases "(sid, s) = a")
    case True
    then have "sid \<in> sensorId ` set (sensorReadings it')"
      using checkSensor_records [of s it sid now] Cons.prems(2,3) a by (simp add: it'_def)
    then show ?thesis
      using checkSensorInteractions_keeps_readings [of it' now ss]
      unfolding a checkSensorInteractions_snd_Cons it'_def by blast
  next
    case False
    then have "(sid, s) \<in> set ss" using Cons.prems(1) by auto
    then show ?thesis
      using Cons.IH [of it'] Cons.prems(2,3) f
      unfolding a checkSensorInteractions_snd_Cons it'_def by simp
  qed
qed

lemma sensed_records:
  assumes "(sid, s) \<in> set (sensors st)" and "sensor_beltId s = beltId it"
    and "js_lt (js_abs (js_sub (position_x (moved dt st it)) (sensor_x s))) (Fin 0.1)"
  shows "sid \<in> sensorId ` set (sensorReadings (sensed dt now st it))"
  unfolding sensed_def
  using assms by (intro checkSensorInteractions_records [where s = s]) (simp_all add: moved_def)

lemma transit_classifies:
  assumes "status it = ''PROCESSING''"
    and "list_all (\<lambda>s. s \<in> set (map sensorId (sensorReadings (sensed dt now st it))))
           (requiredSensors it)"
  shows "status (transit dt now st it) = qc_status (evaluateQC (profiles st) (sensed dt now st it))"
proof -
  have f: "status (sensed dt now st it) = status it" "beltId (sensed dt now st it) = beltId it"
    using checkSensorInteractions_fields [of now "sensors st" "moved dt st it"]
    by (simp_all add: sensed_def moved_def)
  then have "requiredSensors (sensed dt now st it) = requiredSensors it"
    by (simp add: requiredSensors_def)
  then show ?thesis
    using processItem_classifies [of "sensed dt now st it" now st] assms f
    by (simp add: transit_def)
qed

text \<open>
  Claim C10. Whatever the profile, the configuration and the outcomes of the random
  draws are, the softness that \<open>simulateSoftness\<close> returns is never below zero: it is
  \<open>Math.max(0, ...)\<close>, so it is at least zero whenever it is a number at all (it is
  \<open>NaN\<close> when the range or the noise setting is). The same holds for the softness of
  the item that \<open>createBrushItem\<close> builds, to which the drift scenario adds 0.5, and so
  for every item of every simulator that can be reached: no item is classified with a
  negative softness.
\<close>

theorem simulateSoftness_never_negative:
  "\<not> js_lt (simulateSoftness cfg softnessRange g r1 r2) (Fin 0) \<and>
   (simulateSoftness cfg softnessRange g r1 r2 = NaN \<or>
    js_ge (simulateSoftness cfg softnessRange g r1 r2) (Fin 0)) \<and>
   \<not> js_lt (softness_N (newItem st now d bid b p)) (Fin 0) \<and>
   (\<forall>(k, it) \<in> set (items (run ops (constructed t0 controls displays))).
      \<not> js_lt (softness_N it) (Fin 0))"
proof -
  have ge: "simulateSoftness cfg softnessRange g r1 r2 = NaN \<or>
      js_ge (simulateSoftness cfg softnessRange g r1 r2) (Fin 0)"
  proof -
    obtain x where "simulateSoftness cfg softnessRange g r1 r2 = js_max (Fin 0) x"
      using simulateSoftness_max by blast
    then show ?thesis using js_max_zero_ge [of x] by simp
  qed
  have "\<forall>(k, it) \<in> set (items (run ops (constructed t0 controls displays))).
      \<not> js_lt (softness_N it) (Fin 0)"
    using reachable_well_formed [of ops t0 controls displays]
    by (auto simp: well_formed_def item_ok_def)
  then show ?thesis
    using ge simulateSoftness_not_neg newItem_softness_not_neg by blast
qed

theorem simulateSoftness_never_negative_witness:
  "softness_N (the (map_of (items (run at_the_gate fresh_line)) (5000, ''k3x9q2m1z''))) =
     Fin 2.75 \<and>
   \<not> js_lt (softness_N (the (map_of (items (run at_the_gate fresh_line)) (5000, ''k3x9q2m1z''))))
      (Fin 0)"
proof -
  have v: "softness_N (the (map_of (items (run at_the_gate fresh_line)) (5000, ''k3x9q2m1z''))) =
      Fin 2.75"
    by code_simp
  have "map_of (items (run at_the_gate fresh_line)) (5000, ''k3x9q2m1z'') \<noteq> None"
    by code_simp
  then obtain it where it: "map_of (items (run at_the_gate fresh_line)) (5000, ''k3x9q2m1z'') = Some it"
    by blast
  then have "((5000, ''k3x9q2m1z''), it) \<in> set (items (run at_the_gate fresh_line))"
    by (rule map_of_SomeD)
  then have "\<not> js_lt (softness_N it) (Fin 0)"
    using simulateSoftness_never_negative [of _ _ _ _ _ _ _ _ _ _ _ at_the_gate 0
        "[''B1'', ''B2'', ''B3'']" "[''B1'', ''B2'', ''B3'']"]
    unfolding fresh_line_def by blast
  then show ?thesis using v it by simp
qed

text \<open>
  Claim C8. While the emergency stop is engaged a spawn attempt changes nothing, so no
  item is created on any lane. Engaging or releasing the stop leaves the items as they
  are, and \<open>updateItems\<close> does not look at the stop: it does to the simulator what it
  does without the stop, and a frame under the stop is exactly the transport step. On
  every simulator that can be reached, stopped or not, that step turns each entry of
  the map of items into \<open>after_frame\<close> of it: an item that is not completed has its
  position advanced by velocity times elapsed time times simulation speed, gets a
  reading from every gate of its belt within whose tolerance it now lies, and gets its
  verdict as soon as the readings of its three gates are there.
\<close>

theorem emergency_stop_keeps_transit:
  "(emergencyStop st \<longrightarrow> spawnItems now ds st = st) \<and>
   items (toggleEmergencyStop st) = items st \<and>
   updateItems dt now (st\<lparr>emergencyStop := e\<rparr>) =
     (updateItems dt now st)\<lparr>emergencyStop := e\<rparr> \<and>
   (emergencyStop st \<and> running st \<and> \<not> isPaused st \<longrightarrow>
      animate now ds st =
        updateItems (Fin (of_int (now - lastTime st) / 1000)) now (st\<lparr>lastTime := now\<rparr>)) \<and>
   well_formed (run ops (constructed t0 controls displays)) \<and>
   (well_formed st \<longrightarrow>
      map_of (items (updateItems dt now st)) k = after_frame dt now st (map_of (items st) k)) \<and>
   position_x (transit dt now st it) =
     js_add (position_x it) (js_mul (js_mul (velocity it) dt) (simulationSpeed st)) \<and>
   sensorReadings (transit dt now st it) = sensorReadings (sensed dt now st it) \<and>
   ((sid, s) \<in> set (sensors st) \<and> sensor_beltId s = beltId it \<and>
    js_lt (js_abs (js_sub (position_x (moved dt st it)) (sensor_x s))) (Fin 0.1) \<longrightarrow>
      sid \<in> sensorId ` set (sensorReadings (sensed dt now st it))) \<and>
   (status it = ''PROCESSING'' \<and>
    list_all (\<lambda>s. s \<in> set (map sensorId (sensorReadings (sensed dt now st it))))
      (requiredSensors it) \<longrightarrow>
      status (transit dt now st it) =
        qc_status (evaluateQC (profiles st) (sensed dt now st it)))"
proof -
  have c1: "emergencyStop st \<longrightarrow> spawnItems now ds st = st"
    using spawnItems_stopped by blast
  have c2: "items (toggleEmergencyStop st) = items st"
    by (rule toggleEmergencyStop_items)
  have c3: "updateItems dt now (st\<lparr>emergencyStop := e\<rparr>) =
      (updateItems dt now st)\<lparr>emergencyStop := e\<rparr>"
    by (rule updateItems_estop)
  have c4: "emergencyStop st \<and> running st \<and> \<not> isPaused st \<longrightarrow>
      animate now ds st =
        updateItems (Fin (of_int (now - lastTime st) / 1000)) now (st\<lparr>lastTime := now\<rparr>)"
    using animate_stopped by blast
  have c5: "well_formed (run ops (constructed t0 controls displays))"
    by (rule reachable_well_formed)
  have c6: "well_formed st \<longrightarrow>
      map_of (items (updateItems dt now st)) k = after_frame dt now st (map_of (items st) k)"
    using updateItems_effect by blast
  have c7: "position_x (transit dt now st it) =
      js_add (position_x it) (js_mul (js_mul (velocity it) dt) (simulationSpeed st))"
    using transit_fields by blast
  have c8: "sensorReadings (transit dt now st it) = sensorReadings (sensed dt now st it)"
    by (simp add: transit_def processItem_readings)
  have c9: "(sid, s) \<in> set (sensors st) \<and> sensor_beltId s = beltId it \<and>
      js_lt (js_abs (js_sub (position_x (moved dt st it)) (sensor_x s))) (Fin 0.1) \<longrightarrow>
        sid \<in> sensorId ` set (sensorReadings (sensed dt now st it))"
    using sensed_records by blast
  have c10: "status it = ''PROCESSING'' \<and>
      list_all (\<lambda>s. s \<in> set (map sensorId (sensorReadings (sensed dt now st it))))
        (requiredSensors it) \<longrightarrow>
        status (transit dt now st it) =
          qc_status (evaluateQC (profiles st) (sensed dt now st it))"
    using transit_classifies by blast
  show ?thesis
    using c1 c2 c3 c4 c5 c6 c7 c8 c9 c10 by (intro conjI) assumption+
qed

theorem emergency_stop_keeps_transit_witness:
  "emergencyStop stopped_line \<and>
   spawnItems 15000 (\<lambda>_. nominal_draws) stopped_line = stopped_line \<and>
   animate 15000 (\<lambda>_. nominal_draws) stopped_line =
     updateItems (Fin 10) 15000 (stopped_line\<lparr>lastTime := 15000\<rparr>) \<and>
   map_of (items (updateItems (Fin 10) 15000 stopped_line)) (5000, ''k3x9q2m1z'') =
     Some (transit (Fin 10) 15000 stopped_line (the_item stopped_line)) \<and>
   position_x (the_item stopped_line) = Fin (- 3) \<and>
   position_x (transit (Fin 10) 15000 stopped_line (the_item stopped_line)) = Fin 0 \<and>
   ''S_SOFT_1'' \<in> sensorId ` set (sensorReadings
      (transit (Fin 10) 15000 stopped_line (the_item stopped_line))) \<and>
   emergencyStop before_last_gate \<and>
   status (the_item before_last_gate) = ''PROCESSING'' \<and>
   status (transit (Fin 1.7) 18400 before_last_gate (the_item before_last_gate)) = ''OK''"
proof -
  define it0 where "it0 = the_item stopped_line"
  define it2 where "it2 = the_item before_last_gate"
  have e: "emergencyStop stopped_line" by code_simp
  have r: "running stopped_line" by code_simp
  have p: "\<not> isPaused stopped_line" by code_simp
  have t: "lastTime stopped_line = 5000" by code_simp
  have lk: "map_of (items stopped_line) (5000, ''k3x9q2m1z'') = Some it0"
    unfolding it0_def the_item_def by code_simp
  have st0: "status it0 \<noteq> ''COMPLETED''"
    unfolding it0_def the_item_def by code_simp
  have x0: "position_x it0 = Fin (- 3)"
    unfolding it0_def the_item_def by code_simp
  have v0: "js_add (position_x it0) (js_mul (js_mul (velocity it0) (Fin 10))
      (simulationSpeed stopped_line)) = Fin 0"
    unfolding it0_def the_item_def by code_simp
  have g: "(''S_SOFT_1'', newSensor ''softness'' ''B1'' 0) \<in> set (sensors stopped_line)"
    by code_simp
  have gb: "sensor_beltId (newSensor ''softness'' ''B1'' 0) = beltId it0"
    unfolding it0_def the_item_def by code_simp
  have gt: "js_lt (js_abs (js_sub (position_x (moved (Fin 10) stopped_line it0))
      (sensor_x (newSensor ''softness'' ''B1'' 0)))) (Fin 0.1)"
    unfolding it0_def the_item_def by code_simp
  have e2: "emergencyStop before_last_gate" by code_simp
  have s2: "status it2 = ''PROCESSING''"
    unfolding it2_def the_item_def by code_simp
  have all: "list_all (\<lambda>s. s \<in> set (map sensorId (sensorReadings
      (sensed (Fin 1.7) 18400 before_last_gate it2)))) (requiredSensors it2)"
    unfolding it2_def the_item_def by code_simp
  have ok: "qc_status (evaluateQC (profiles before_last_gate)
      (sensed (Fin 1.7) 18400 before_last_gate it2)) = ''OK''"
    unfolding it2_def the_item_def by code_simp
  have wf: "well_formed stopped_line"
    using emergency_stop_keeps_transit [where ops = "[ToggleBelt ''B1'',
        Frame 5000 (\<lambda>_. nominal_draws), ToggleEmergencyStop]" and ?t0.0 = 0
        and controls = "[''B1'', ''B2'', ''B3'']" and displays = "[''B1'', ''B2'', ''B3'']"]
    by (simp add: stopped_line_def fresh_line_def)
  have first: "position_x (transit (Fin 10) 15000 stopped_line it0) = Fin 0 \<and>
      ''S_SOFT_1'' \<in> sensorId ` set (sensorReadings (transit (Fin 10) 15000 stopped_line it0)) \<and>
      spawnItems 15000 (\<lambda>_. nominal_draws) stopped_line = stopped_line \<and>
      animate 15000 (\<lambda>_. nominal_draws) stopped_line =
        updateItems (Fin 10) 15000 (stopped_line\<lparr>lastTime := 15000\<rparr>) \<and>
      map_of (items (updateItems (Fin 10) 15000 stopped_line)) (5000, ''k3x9q2m1z'') =
        after_frame (Fin 10) 15000 stopped_line (Some it0)"
    using emergency_stop_keeps_transit [where st = stopped_line and now = 15000
        and ds = "\<lambda>_. nominal_draws" and dt = "Fin 10" and k = "(5000, ''k3x9q2m1z'')"
        and it = it0 and sid = "''S_SOFT_1''" and s = "newSensor ''softness'' ''B1'' 0"]
      e r p t lk v0 g gb gt wf
    by simp
  have gone: "\<not> js_gt (Fin 0) (Fin 4)"
    by (simp add: js_gt_def)
  have entry: "after_frame (Fin 10) 15000 stopped_line (Some it0) =
      Some (transit (Fin 10) 15000 stopped_line it0)"
    using st0 first gone by (simp add: after_frame_def)
  have last: "status (transit (Fin 1.7) 18400 before_last_gate it2) = ''OK''"
    using emergency_stop_keeps_transit [where st = before_last_gate and dt = "Fin 1.7"
        and now = 18400 and it = it2] s2 all ok
    by simp
  show ?thesis
    using e e2 first entry last x0 s2
    by (simp add: it0_def [symmetric] it2_def [symmetric])
qed

end
